theory Spec2Isabelle
  imports Complex_Main
begin

section \<open>Single-object tracker of \<open>libs/video_auto_annotation.py\<close>\<close>

text \<open>
  The development embeds the tracking engine of the module: the Kalman filter, the
  confidence-tiered matcher inside \<open>SingleObjectTracker.update\<close>, the track record and
  the frame driver \<open>VideoAutoAnnotator\<close>.

  Conventions of the embedding.
  \<^item> Python and numpy floating-point numbers are read as \<^typ>\<open>real\<close>: rounding, infinities
    and NaN are outside the model.
  \<^item> A numpy array is a row-major list of rows.
  \<^item> A method that mutates \<open>self\<close> takes the object and returns the updated object; a
    method that can raise returns the object as it is left at the raise together with
    the error.
  \<^item> Console output (\<open>print\<close>) is not modelled.
\<close>

subsection \<open>Errors\<close>

datatype error = LinAlgError | OSError

subsection \<open>Dense matrices (numpy arrays)\<close>

type_synonym matrix = "real list list"

type_synonym bbox = "real \<times> real \<times> real \<times> real"

definition ncols :: "matrix \<Rightarrow> nat" where
  "ncols A = (case A of [] \<Rightarrow> 0 | r # _ \<Rightarrow> length r)"

definition column :: "matrix \<Rightarrow> nat \<Rightarrow> real list" where
  "column A j = map (\<lambda>r. r ! j) A"

text \<open>\<open>A.T\<close> for a rectangular array.\<close>

definition transpose_m :: "matrix \<Rightarrow> matrix" where
  "transpose_m A = map (column A) [0..<ncols A]"

definition inner :: "real list \<Rightarrow> real list \<Rightarrow> real" where
  "inner u v = sum_list (map2 (*) u v)"

text \<open>\<open>np.dot(A, B)\<close> for two-dimensional arrays of matching shapes.\<close>

definition dot :: "matrix \<Rightarrow> matrix \<Rightarrow> matrix" where
  "dot A B = map (\<lambda>r. map (\<lambda>j. inner r (column B j)) [0..<ncols B]) A"

definition madd :: "matrix \<Rightarrow> matrix \<Rightarrow> matrix" where
  "madd A B = map2 (map2 (+)) A B"

definition msub :: "matrix \<Rightarrow> matrix \<Rightarrow> matrix" where
  "msub A B = map2 (map2 (-)) A B"

definition smul :: "matrix \<Rightarrow> real \<Rightarrow> matrix" where
  "smul A c = map (map (\<lambda>v. v * c)) A"

text \<open>\<open>np.eye(n)\<close> and \<open>np.zeros((n, m))\<close>.\<close>

definition eye :: "nat \<Rightarrow> matrix" where
  "eye n = map (\<lambda>i. map (\<lambda>j. if i = j then 1 else 0) [0..<n]) [0..<n]"

definition zeros :: "nat \<Rightarrow> nat \<Rightarrow> matrix" where
  "zeros n m = replicate n (replicate m 0)"

text \<open>
  \<open>np.linalg.inv\<close>: the exact inverse by Gauss-Jordan elimination on the array
  augmented with the identity. A column without a non-zero pivot means the array is
  singular, where numpy raises \<open>LinAlgError\<close>. Over the reals the inverse does not
  depend on the pivoting order, so the first non-zero pivot is taken.
\<close>

definition find_pivot :: "matrix \<Rightarrow> nat \<Rightarrow> nat option" where
  "find_pivot M k = find (\<lambda>p. M ! p ! k \<noteq> 0) [k..<length M]"

definition swap_rows :: "nat \<Rightarrow> nat \<Rightarrow> matrix \<Rightarrow> matrix" where
  "swap_rows k p M = M[k := M ! p, p := M ! k]"

definition scale_row :: "nat \<Rightarrow> matrix \<Rightarrow> matrix" where
  "scale_row k M = M[k := map (\<lambda>v. v / (M ! k ! k)) (M ! k)]"

definition eliminate :: "nat \<Rightarrow> matrix \<Rightarrow> matrix" where
  "eliminate k M =
     map (\<lambda>i. if i = k then M ! i
               else map2 (\<lambda>v w. v - (M ! i ! k) * w) (M ! i) (M ! k))
         [0..<length M]"

fun gauss_jordan :: "nat list \<Rightarrow> matrix \<Rightarrow> matrix option" where
  "gauss_jordan [] M = Some M"
| "gauss_jordan (k # ks) M =
     (case find_pivot M k of
        None \<Rightarrow> None
      | Some p \<Rightarrow> gauss_jordan ks (eliminate k (scale_row k (swap_rows k p M))))"

definition linalg_inv :: "matrix \<Rightarrow> error + matrix" where
  "linalg_inv A =
     (let n = length A in
      case gauss_jordan [0..<n] (map2 (@) A (eye n)) of
        None \<Rightarrow> Inl LinAlgError
      | Some M \<Rightarrow> Inr (map (drop n) M))"

subsection \<open>The Kalman filter\<close>

text \<open>
  Class \<open>KalmanFilter\<close>. The state vector \<open>x\<close> is the 8x1 array
  \<open>[center_x, center_y, width, height, dx, dy, dw, dh]\<close>.
\<close>

record KalmanFilter =
  kf_dt :: real
  kf_x :: matrix
  kf_F :: matrix
  kf_H :: matrix
  kf_Q :: matrix
  kf_R :: matrix
  kf_P :: matrix
  kf_is_initialized :: bool

definition F_matrix :: matrix where
  "F_matrix =
    [[1, 0, 0, 0, 1, 0, 0, 0],
     [0, 1, 0, 0, 0, 1, 0, 0],
     [0, 0, 1, 0, 0, 0, 1, 0],
     [0, 0, 0, 1, 0, 0, 0, 1],
     [0, 0, 0, 0, 1, 0, 0, 0],
     [0, 0, 0, 0, 0, 1, 0, 0],
     [0, 0, 0, 0, 0, 0, 1, 0],
     [0, 0, 0, 0, 0, 0, 0, 1]]"

definition H_matrix :: matrix where
  "H_matrix =
    [[1, 0, 0, 0, 0, 0, 0, 0],
     [0, 1, 0, 0, 0, 0, 0, 0],
     [0, 0, 1, 0, 0, 0, 0, 0],
     [0, 0, 0, 1, 0, 0, 0, 0]]"

text \<open>
  \<open>Q = np.eye(8) * 0.1\<close> followed by \<open>Q[4:, 4:] *= 0.01\<close>: the lower right 4x4 block
  is scaled in place.
\<close>

definition scale_lower_right :: "matrix \<Rightarrow> real \<Rightarrow> matrix" where
  "scale_lower_right A c =
     map (\<lambda>i. map (\<lambda>j. if 4 \<le> i \<and> 4 \<le> j then A ! i ! j * c else A ! i ! j)
                 [0..<ncols A])
         [0..<length A]"

definition Q_matrix :: matrix where
  "Q_matrix = scale_lower_right (smul (eye 8) 0.1) 0.01"

definition R_matrix :: matrix where
  "R_matrix = smul (eye 4) 10.0"

definition KalmanFilter_init :: KalmanFilter where
  "KalmanFilter_init =
     \<lparr> kf_dt = 1.0,
       kf_x = zeros 8 1,
       kf_F = F_matrix,
       kf_H = H_matrix,
       kf_Q = Q_matrix,
       kf_R = R_matrix,
       kf_P = smul (eye 8) 1000.0,
       kf_is_initialized = False \<rparr>"

definition initialize :: "KalmanFilter \<Rightarrow> bbox \<Rightarrow> KalmanFilter" where
  "initialize kf b =
     (case b of (x1, y1, x2, y2) \<Rightarrow>
        let center_x = (x1 + x2) / 2.0;
            center_y = (y1 + y2) / 2.0;
            width = x2 - x1;
            height = y2 - y1
        in kf\<lparr> kf_x := [[center_x], [center_y], [width], [height], [0], [0], [0], [0]],
               kf_is_initialized := True \<rparr>)"

text \<open>The bounding box read off the first four entries of the state vector.\<close>

definition state_bbox :: "matrix \<Rightarrow> bbox" where
  "state_bbox xv =
     (let center_x = xv ! 0 ! 0; center_y = xv ! 1 ! 0;
          width = xv ! 2 ! 0; height = xv ! 3 ! 0
      in (center_x - width / 2.0, center_y - height / 2.0,
          center_x + width / 2.0, center_y + height / 2.0))"

text \<open>
  \<open>predict\<close> returns \<open>None\<close> and leaves the filter untouched when the filter is not
  initialised.
\<close>

definition predict :: "KalmanFilter \<Rightarrow> KalmanFilter \<times> bbox option" where
  "predict kf =
     (if \<not> kf_is_initialized kf then (kf, None)
      else
        let x' = dot (kf_F kf) (kf_x kf);
            P' = madd (dot (dot (kf_F kf) (kf_P kf)) (transpose_m (kf_F kf))) (kf_Q kf)
        in (kf\<lparr> kf_x := x', kf_P := P' \<rparr>, Some (state_bbox x')))"

text \<open>
  \<open>update\<close>: an uninitialised filter is initialised from the observation instead. The
  only statement that can raise is the inversion of \<open>S\<close>, which precedes both
  assignments, so the filter is unchanged at the raise.
\<close>

definition kf_update :: "KalmanFilter \<Rightarrow> bbox \<Rightarrow> error + KalmanFilter" where
  "kf_update kf b =
     (if \<not> kf_is_initialized kf then Inr (initialize kf b)
      else
        (case b of (x1, y1, x2, y2) \<Rightarrow>
          let center_x = (x1 + x2) / 2.0;
              center_y = (y1 + y2) / 2.0;
              width = x2 - x1;
              height = y2 - y1;
              z = [[center_x], [center_y], [width], [height]];
              y = msub z (dot (kf_H kf) (kf_x kf));
              S = madd (dot (dot (kf_H kf) (kf_P kf)) (transpose_m (kf_H kf))) (kf_R kf)
          in (case linalg_inv S of
                Inl e \<Rightarrow> Inl e
              | Inr Si \<Rightarrow>
                  let K = dot (dot (kf_P kf) (transpose_m (kf_H kf))) Si
                  in Inr (kf\<lparr> kf_x := madd (kf_x kf) (dot K y),
                              kf_P := msub (kf_P kf) (dot (dot K (kf_H kf)) (kf_P kf)) \<rparr>))))"

definition get_current_bbox :: "KalmanFilter \<Rightarrow> bbox option" where
  "get_current_bbox kf =
     (if \<not> kf_is_initialized kf then None else Some (state_bbox (kf_x kf)))"

text \<open>
  The public operations of a filter object, and what a caller can reach with them from a
  freshly constructed filter. A run stops at the first raise.
\<close>

datatype kf_op = Initialize bbox | Predict | Update bbox

fun kf_apply :: "KalmanFilter \<Rightarrow> kf_op \<Rightarrow> error + KalmanFilter" where
  "kf_apply kf (Initialize b) = Inr (initialize kf b)"
| "kf_apply kf Predict = Inr (fst (predict kf))"
| "kf_apply kf (Update b) = kf_update kf b"

fun kf_run :: "KalmanFilter \<Rightarrow> kf_op list \<Rightarrow> error + KalmanFilter" where
  "kf_run kf [] = Inr kf"
| "kf_run kf (op # ops) =
     (case kf_apply kf op of Inl e \<Rightarrow> Inl e | Inr kf' \<Rightarrow> kf_run kf' ops)"

text \<open>\<open>n\<close> consecutive calls of \<open>predict\<close> with nothing in between.\<close>

fun predict_n :: "nat \<Rightarrow> KalmanFilter \<Rightarrow> KalmanFilter" where
  "predict_n 0 kf = kf"
| "predict_n (Suc n) kf = predict_n n (fst (predict kf))"

subsection \<open>Shape of the covariance\<close>

text \<open>
  The covariance of a filter built by the constructor keeps one shape: each of the four
  box coordinates is coupled with its own velocity only. \<open>banded\<close> is that shape, with
  position variances \<open>a\<close>, position-velocity covariances \<open>b\<close> and velocity variances \<open>d\<close>.
\<close>

definition banded ::
  "real \<Rightarrow> real \<Rightarrow> real \<Rightarrow> real \<Rightarrow> real \<Rightarrow> real \<Rightarrow> real \<Rightarrow> real \<Rightarrow>
   real \<Rightarrow> real \<Rightarrow> real \<Rightarrow> real \<Rightarrow> matrix" where
  "banded a0 a1 a2 a3 b0 b1 b2 b3 d0 d1 d2 d3 =
    [[a0, 0, 0, 0, b0, 0, 0, 0],
     [0, a1, 0, 0, 0, b1, 0, 0],
     [0, 0, a2, 0, 0, 0, b2, 0],
     [0, 0, 0, a3, 0, 0, 0, b3],
     [b0, 0, 0, 0, d0, 0, 0, 0],
     [0, b1, 0, 0, 0, d1, 0, 0],
     [0, 0, b2, 0, 0, 0, d2, 0],
     [0, 0, 0, b3, 0, 0, 0, d3]]"

definition block_ok :: "real \<Rightarrow> real \<Rightarrow> real \<Rightarrow> bool" where
  "block_ok a b d = (0 \<le> a \<and> 0 \<le> b \<and> 0 \<le> d \<and> b * b \<le> a * d)"

definition cov_ok :: "matrix \<Rightarrow> bool" where
  "cov_ok M =
     (M = banded (M ! 0 ! 0) (M ! 1 ! 1) (M ! 2 ! 2) (M ! 3 ! 3)
                 (M ! 0 ! 4) (M ! 1 ! 5) (M ! 2 ! 6) (M ! 3 ! 7)
                 (M ! 4 ! 4) (M ! 5 ! 5) (M ! 6 ! 6) (M ! 7 ! 7)
      \<and> block_ok (M ! 0 ! 0) (M ! 0 ! 4) (M ! 4 ! 4)
      \<and> block_ok (M ! 1 ! 1) (M ! 1 ! 5) (M ! 5 ! 5)
      \<and> block_ok (M ! 2 ! 2) (M ! 2 ! 6) (M ! 6 ! 6)
      \<and> block_ok (M ! 3 ! 3) (M ! 3 ! 7) (M ! 7 ! 7))"

text \<open>The state vector is an 8x1 array.\<close>

definition column_vector :: "matrix \<Rightarrow> bool" where
  "column_vector xv =
     (xv = [[xv ! 0 ! 0], [xv ! 1 ! 0], [xv ! 2 ! 0], [xv ! 3 ! 0],
            [xv ! 4 ! 0], [xv ! 5 ! 0], [xv ! 6 ! 0], [xv ! 7 ! 0]])"

text \<open>
  What holds of a filter between calls. The arrays keep the shapes the constructor gives
  them, which is why the shape errors of \<open>np.dot\<close> are no branch of the model.
\<close>

definition kf_inv :: "KalmanFilter \<Rightarrow> bool" where
  "kf_inv kf =
     (kf_F kf = F_matrix \<and> kf_H kf = H_matrix \<and> kf_Q kf = Q_matrix \<and> kf_R kf = R_matrix
      \<and> cov_ok (kf_P kf) \<and> column_vector (kf_x kf))"

subsection \<open>Detections, tracking boxes and the track\<close>

record DetectionBox =
  d_x1 :: real
  d_y1 :: real
  d_x2 :: real
  d_y2 :: real
  d_confidence :: real
  d_class_id :: int
  d_class_name :: string

record TrackingBox =
  t_track_id :: int
  t_x1 :: real
  t_y1 :: real
  t_x2 :: real
  t_y2 :: real
  t_confidence :: real
  t_class_id :: int
  t_class_name :: string
  t_frame_id :: int

text \<open>The dictionary \<open>target_track\<close>; its \<open>state\<close> is \<open>'tracked'\<close> or \<open>'lost'\<close>.\<close>

record Track =
  tk_box :: bbox
  tk_class_id :: int
  tk_class_name :: string
  tk_disappeared :: int
  tk_confidence :: real
  tk_last_frame :: int
  tk_state :: string

text \<open>A manual annotation: the dictionary with keys \<open>x1, y1, x2, y2, class_id, class_name\<close>.\<close>

record ManualBox =
  m_x1 :: real
  m_y1 :: real
  m_x2 :: real
  m_y2 :: real
  m_class_id :: int
  m_class_name :: string

definition det_box :: "DetectionBox \<Rightarrow> bbox" where
  "det_box d = (d_x1 d, d_y1 d, d_x2 d, d_y2 d)"

definition tracking_bbox :: "TrackingBox \<Rightarrow> bbox" where
  "tracking_bbox r = (t_x1 r, t_y1 r, t_x2 r, t_y2 r)"

subsection \<open>The single-object tracker\<close>

record SingleObjectTracker =
  target_track :: "Track option"
  max_disappeared :: int
  high_iou_threshold :: real
  low_iou_threshold :: real
  is_tracking :: bool
  track_id :: int
  kalman_filter :: KalmanFilter
  high_conf_threshold :: real
  low_conf_threshold :: real

definition SingleObjectTracker_init :: "int \<Rightarrow> real \<Rightarrow> real \<Rightarrow> SingleObjectTracker" where
  "SingleObjectTracker_init max_disappeared_arg high_iou low_iou =
     \<lparr> target_track = None,
       max_disappeared = max_disappeared_arg,
       high_iou_threshold = high_iou,
       low_iou_threshold = low_iou,
       is_tracking = False,
       track_id = 0,
       kalman_filter = KalmanFilter_init,
       high_conf_threshold = 0.5,
       low_conf_threshold = 0.25 \<rparr>"

text \<open>The constructor with its default arguments.\<close>

definition SingleObjectTracker_default :: SingleObjectTracker where
  "SingleObjectTracker_default = SingleObjectTracker_init 30 0.3 0.15"

definition calculate_iou :: "bbox \<Rightarrow> bbox \<Rightarrow> real" where
  "calculate_iou box1 box2 =
     (case box1 of (a1, b1, a2, b2) \<Rightarrow>
      (case box2 of (c1, e1, c2, e2) \<Rightarrow>
        let x1 = max a1 c1; y1 = max b1 e1; x2 = min a2 c2; y2 = min b2 e2
        in if x1 \<ge> x2 \<or> y1 \<ge> y2 then 0.0
           else
             let intersection = (x2 - x1) * (y2 - y1);
                 area1 = (a2 - a1) * (b2 - b1);
                 area2 = (c2 - c1) * (e2 - e1);
                 union = area1 + area2 - intersection
             in if union = 0 then 0.0 else intersection / union))"

definition initialize_target ::
  "SingleObjectTracker \<Rightarrow> ManualBox \<Rightarrow> int \<Rightarrow> SingleObjectTracker" where
  "initialize_target tr manual_box frame_id =
     (let b = (m_x1 manual_box, m_y1 manual_box, m_x2 manual_box, m_y2 manual_box)
      in tr\<lparr> target_track :=
                Some \<lparr> tk_box = b,
                       tk_class_id = m_class_id manual_box,
                       tk_class_name = m_class_name manual_box,
                       tk_disappeared = 0,
                       tk_confidence = 1.0,
                       tk_last_frame = frame_id,
                       tk_state = ''tracked'' \<rparr>,
              kalman_filter := initialize (kalman_filter tr) b,
              is_tracking := True \<rparr>)"

text \<open>
  The three loop variables of the matching rounds of \<open>update\<close>: \<open>best_match\<close>,
  \<open>best_iou\<close> and \<open>match_source\<close>.
\<close>

record match_state =
  best_match :: "DetectionBox option"
  best_iou :: real
  match_source :: string

definition no_match :: match_state where
  "no_match = \<lparr> best_match = None, best_iou = 0, match_source = ''none'' \<rparr>"

text \<open>Body of the first loop (over the high-confidence detections).\<close>

definition high_conf_step ::
  "bbox \<Rightarrow> int \<Rightarrow> real \<Rightarrow> match_state \<Rightarrow> DetectionBox \<Rightarrow> match_state" where
  "high_conf_step reference_box target_class high_iou s detection =
     (let iou = calculate_iou reference_box (det_box detection)
      in if d_class_id detection = target_class then
           (if iou > best_iou s \<and> iou > high_iou
            then \<lparr> best_match = Some detection, best_iou = iou,
                   match_source = ''high_conf_same_class'' \<rparr>
            else s)
         else if best_match s = None \<and> iou > high_iou * 1.2
         then \<lparr> best_match = Some detection, best_iou = iou,
                match_source = ''high_conf_diff_class'' \<rparr>
         else s)"

text \<open>Body of the second loop (over the low-confidence detections).\<close>

definition low_conf_step ::
  "bbox \<Rightarrow> int \<Rightarrow> real \<Rightarrow> match_state \<Rightarrow> DetectionBox \<Rightarrow> match_state" where
  "low_conf_step reference_box target_class low_iou s detection =
     (let iou = calculate_iou reference_box (det_box detection)
      in if d_class_id detection = target_class then
           (if iou > best_iou s \<and> iou > low_iou
            then \<lparr> best_match = Some detection, best_iou = iou,
                   match_source = ''low_conf_same_class'' \<rparr>
            else s)
         else s)"

text \<open>Body of the third loop (recovery, over all kept detections).\<close>

definition recovery_step ::
  "bbox \<Rightarrow> int \<Rightarrow> real \<Rightarrow> match_state \<Rightarrow> DetectionBox \<Rightarrow> match_state" where
  "recovery_step reference_box target_class relaxed_iou_threshold s detection =
     (let iou = calculate_iou reference_box (det_box detection)
      in if d_class_id detection = target_class then
           (if iou > best_iou s \<and> iou > relaxed_iou_threshold
            then \<lparr> best_match = Some detection, best_iou = iou,
                   match_source = ''recovery_match'' \<rparr>
            else s)
         else s)"

text \<open>The two confidence classes; a detection below \<open>low_conf_threshold\<close> is in neither.\<close>

definition high_conf_detections :: "SingleObjectTracker \<Rightarrow> DetectionBox list \<Rightarrow> DetectionBox list" where
  "high_conf_detections tr detections =
     filter (\<lambda>d. d_confidence d \<ge> high_conf_threshold tr) detections"

definition low_conf_detections :: "SingleObjectTracker \<Rightarrow> DetectionBox list \<Rightarrow> DetectionBox list" where
  "low_conf_detections tr detections =
     filter (\<lambda>d. low_conf_threshold tr \<le> d_confidence d \<and> d_confidence d < high_conf_threshold tr)
            detections"

text \<open>Step 3 of \<open>update\<close>: the loop over the high-confidence detections, from no match.\<close>

definition first_round ::
  "SingleObjectTracker \<Rightarrow> Track \<Rightarrow> bbox \<Rightarrow> DetectionBox list \<Rightarrow> match_state" where
  "first_round tr t reference_box detections =
     foldl (high_conf_step reference_box (tk_class_id t) (high_iou_threshold tr))
           no_match (high_conf_detections tr detections)"

text \<open>Step 4: the loop over the low-confidence detections runs only without a match.\<close>

definition second_round ::
  "SingleObjectTracker \<Rightarrow> Track \<Rightarrow> bbox \<Rightarrow> DetectionBox list \<Rightarrow> match_state \<Rightarrow> match_state" where
  "second_round tr t reference_box detections s =
     (if best_match s = None
      then foldl (low_conf_step reference_box (tk_class_id t) (low_iou_threshold tr))
                 s (low_conf_detections tr detections)
      else s)"

text \<open>Step 5: the recovery loop, for a lost track that disappeared for fewer than 10 frames.\<close>

definition third_round ::
  "SingleObjectTracker \<Rightarrow> Track \<Rightarrow> bbox \<Rightarrow> DetectionBox list \<Rightarrow> match_state \<Rightarrow> match_state" where
  "third_round tr t reference_box detections s =
     (if best_match s = None \<and> tk_state t = ''lost'' \<and> tk_disappeared t < 10
      then
        let relaxed_iou_threshold = max 0.1 (low_iou_threshold tr * 0.7);
            all_detections = high_conf_detections tr detections @ low_conf_detections tr detections
        in foldl (recovery_step reference_box (tk_class_id t) relaxed_iou_threshold)
                 s all_detections
      else s)"

definition match_detections ::
  "SingleObjectTracker \<Rightarrow> Track \<Rightarrow> bbox \<Rightarrow> DetectionBox list \<Rightarrow> match_state" where
  "match_detections tr t reference_box detections =
     third_round tr t reference_box detections
       (second_round tr t reference_box detections
          (first_round tr t reference_box detections))"

text \<open>
  Step 1: the box the detections are compared with. It is the prediction of the filter,
  and the stored box of the track when the filter gives \<open>None\<close>.
\<close>

definition predicted_bbox :: "SingleObjectTracker \<Rightarrow> Track \<Rightarrow> bbox" where
  "predicted_bbox tr t =
     (case snd (predict (kalman_filter tr)) of None \<Rightarrow> tk_box t | Some b \<Rightarrow> b)"

text \<open>The verdict of the three rounds for one frame.\<close>

definition frame_match :: "SingleObjectTracker \<Rightarrow> Track \<Rightarrow> DetectionBox list \<Rightarrow> match_state" where
  "frame_match tr t detections = match_detections tr t (predicted_bbox tr t) detections"

text \<open>
  \<open>SingleObjectTracker.update\<close>. The tracker is returned as the call leaves it, also when
  the filter update raises: by then only \<open>predict\<close> has changed anything. In the branch
  without a match the source tests \<open>predicted_bbox is not None\<close>; step 1 has replaced
  \<open>None\<close> already, so the test holds and its \<open>else\<close> branch cannot run.
\<close>

definition update ::
  "SingleObjectTracker \<Rightarrow> DetectionBox list \<Rightarrow> int \<Rightarrow>
   SingleObjectTracker \<times> (error + TrackingBox list)" where
  "update tr detections frame_id =
     (case target_track tr of
        None \<Rightarrow> (tr, Inr [])
      | Some t \<Rightarrow>
          if \<not> is_tracking tr then (tr, Inr [])
          else
            let kf1 = fst (predict (kalman_filter tr));
                pb = predicted_bbox tr t
            in (case best_match (frame_match tr t detections) of
                  Some bm \<Rightarrow>
                    (let matched_bbox = (d_x1 bm, d_y1 bm, d_x2 bm, d_y2 bm)
                     in (case kf_update kf1 matched_bbox of
                           Inl e \<Rightarrow> (tr\<lparr> kalman_filter := kf1 \<rparr>, Inl e)
                         | Inr kf2 \<Rightarrow>
                             let t' = t\<lparr> tk_box := matched_bbox,
                                         tk_confidence := d_confidence bm,
                                         tk_disappeared := 0,
                                         tk_last_frame := frame_id,
                                         tk_state := ''tracked'' \<rparr>;
                                 final_bbox = (case get_current_bbox kf2 of
                                                 Some kalman_bbox \<Rightarrow> kalman_bbox
                                               | None \<Rightarrow> matched_bbox)
                             in (tr\<lparr> kalman_filter := kf2, target_track := Some t' \<rparr>,
                                 Inr [\<lparr> t_track_id = track_id tr,
                                        t_x1 = fst final_bbox,
                                        t_y1 = fst (snd final_bbox),
                                        t_x2 = fst (snd (snd final_bbox)),
                                        t_y2 = snd (snd (snd final_bbox)),
                                        t_confidence = d_confidence bm,
                                        t_class_id = tk_class_id t',
                                        t_class_name = tk_class_name t',
                                        t_frame_id = frame_id \<rparr>])))
                | None \<Rightarrow>
                    (let t' = t\<lparr> tk_disappeared := tk_disappeared t + 1,
                                tk_state := ''lost'' \<rparr>
                     in if tk_disappeared t' > max_disappeared tr
                        then (tr\<lparr> kalman_filter := kf1, is_tracking := False,
                                  target_track := None \<rparr>, Inr [])
                        else
                          let confidence =
                                max 0.1 (tk_confidence t' - 0.05 * real_of_int (tk_disappeared t'))
                          in (tr\<lparr> kalman_filter := kf1, target_track := Some t' \<rparr>,
                              Inr [\<lparr> t_track_id = track_id tr,
                                     t_x1 = fst pb,
                                     t_y1 = fst (snd pb),
                                     t_x2 = fst (snd (snd pb)),
                                     t_y2 = snd (snd (snd pb)),
                                     t_confidence = confidence,
                                     t_class_id = tk_class_id t',
                                     t_class_name = tk_class_name t',
                                     t_frame_id = frame_id \<rparr>]))))"

definition reset :: "SingleObjectTracker \<Rightarrow> SingleObjectTracker" where
  "reset tr = tr\<lparr> target_track := None, is_tracking := False,
                  kalman_filter := KalmanFilter_init \<rparr>"

text \<open>
  What holds of a tracker between calls: the filter has the constructor's matrices and a
  covariance of the shape above, and a tracker that is tracking has a track and an
  initialised filter.
\<close>

definition tracker_ok :: "SingleObjectTracker \<Rightarrow> bool" where
  "tracker_ok tr =
     (kf_inv (kalman_filter tr)
      \<and> (is_tracking tr \<longrightarrow> target_track tr \<noteq> None \<and> kf_is_initialized (kalman_filter tr)))"

text \<open>
  What the first loop maintains, for the detections \<open>xs\<close> it has seen and its variables
  \<open>s\<close>: without a match \<open>best_iou\<close> is still 0; no detection of the class of the track
  among \<open>xs\<close> is above both \<open>best_iou\<close> and the threshold; and a match of the class of the
  track is above the threshold, the first among \<open>xs\<close> of its IoU and the best of its class.
\<close>

definition same_class_best ::
  "bbox \<Rightarrow> int \<Rightarrow> real \<Rightarrow> DetectionBox list \<Rightarrow> match_state \<Rightarrow> bool" where
  "same_class_best rb c thr xs s =
     ((best_match s = None \<longrightarrow> best_iou s = 0)
      \<and> 0 \<le> best_iou s
      \<and> (\<forall>d\<in>set xs. d_class_id d = c \<longrightarrow>
            calculate_iou rb (det_box d) \<le> best_iou s \<or> calculate_iou rb (det_box d) \<le> thr)
      \<and> (\<forall>m. best_match s = Some m \<and> d_class_id m = c \<longrightarrow>
            best_iou s = calculate_iou rb (det_box m) \<and> calculate_iou rb (det_box m) > thr
            \<and> (\<exists>pre post. xs = pre @ m # post
                  \<and> (\<forall>d\<in>set pre. d_class_id d = c \<longrightarrow>
                        calculate_iou rb (det_box d) < calculate_iou rb (det_box m))
                  \<and> (\<forall>d\<in>set post. d_class_id d = c \<longrightarrow>
                        calculate_iou rb (det_box d) \<le> calculate_iou rb (det_box m)))))"

subsection \<open>Annotation files\<close>

text \<open>
  The part of the file system the module writes: the label files with their lines, the
  image files written by \<open>cv2.imwrite\<close>, and whether opening a label file for writing
  succeeds (\<open>open\<close> raises \<open>OSError\<close> otherwise). A label line is kept as its five
  fields, before they are printed with six decimals.
\<close>

type_synonym yolo_line = "int \<times> real \<times> real \<times> real \<times> real"

record FileSystem =
  label_files :: "string \<rightharpoonup> yolo_line list"
  image_files :: "string list"
  writable :: bool

text \<open>\<open>os.path.join\<close> of two components, as \<open>posixpath\<close> defines it.\<close>

definition path_join :: "string \<Rightarrow> string \<Rightarrow> string" where
  "path_join a b =
     (if b \<noteq> [] \<and> hd b = CHR ''/'' then b
      else if a = [] \<or> last a = CHR ''/'' then a @ b
      else a @ ''/'' @ b)"

definition convert_to_yolo_format :: "TrackingBox \<Rightarrow> nat \<Rightarrow> nat \<Rightarrow> yolo_line" where
  "convert_to_yolo_format tracking_box image_width image_height =
     (let center_x = (t_x1 tracking_box + t_x2 tracking_box) / 2.0 / real image_width;
          center_y = (t_y1 tracking_box + t_y2 tracking_box) / 2.0 / real image_height;
          width = (t_x2 tracking_box - t_x1 tracking_box) / real image_width;
          height = (t_y2 tracking_box - t_y1 tracking_box) / real image_height
      in (t_class_id tracking_box,
          max 0 (min 1 center_x), max 0 (min 1 center_y),
          max 0 (min 1 width), max 0 (min 1 height)))"

text \<open>
  \<open>AnnotationGenerator.save_frame_annotation\<close>, for the generator with output directory
  \<open>output_dir\<close>. The result is the file system after the call and the returned flag, or
  the error raised by \<open>open\<close>.
\<close>

definition save_frame_annotation ::
  "string \<Rightarrow> FileSystem \<Rightarrow> string \<Rightarrow> TrackingBox list \<Rightarrow> nat \<Rightarrow> nat \<Rightarrow>
   FileSystem \<times> (error + bool)" where
  "save_frame_annotation output_dir fs frame_name tracking_results image_width image_height =
     (if tracking_results = [] then (fs, Inr False)
      else
        let labels_dir = path_join output_dir ''labels'';
            annotation_file = path_join labels_dir (frame_name @ ''.txt'')
        in if \<not> writable fs then (fs, Inl OSError)
           else (fs\<lparr> label_files := (label_files fs)
                        (annotation_file \<mapsto>
                           map (\<lambda>tb. convert_to_yolo_format tb image_width image_height)
                               tracking_results) \<rparr>,
                 Inr True))"

subsection \<open>The frame driver\<close>

text \<open>The dictionary \<open>statistics\<close>.\<close>

record Statistics =
  st_total_frames :: int
  st_total_tracks :: int
  st_active_tracks :: int
  st_total_detections :: int
  st_high_conf_detections :: int
  st_low_conf_detections :: int
  st_successful_tracks :: int
  st_lost_tracks :: int
  st_saved_images :: int
  st_saved_annotations :: int
  st_saved_labels :: int
  st_tracking_start_frame :: int
  st_tracking_end_frame :: int
  st_target_class :: string
  st_confidence_sum :: real
  st_tracking_success_rate :: real

definition Statistics_init :: Statistics where
  "Statistics_init =
     \<lparr> st_total_frames = 0, st_total_tracks = 0, st_active_tracks = 0,
       st_total_detections = 0, st_high_conf_detections = 0, st_low_conf_detections = 0,
       st_successful_tracks = 0, st_lost_tracks = 0, st_saved_images = 0,
       st_saved_annotations = 0, st_saved_labels = 0, st_tracking_start_frame = 0,
       st_tracking_end_frame = 0, st_target_class = [], st_confidence_sum = 0.0,
       st_tracking_success_rate = 0.0 \<rparr>"

text \<open>
  Class \<open>VideoAutoAnnotator\<close>. The detector is an external collaborator: what it returns
  for a frame is part of the frame below. \<open>output_dir\<close> stands for the annotation
  generator, whose only field it is.
\<close>

record VideoAutoAnnotator =
  tracker :: SingleObjectTracker
  output_dir :: string
  frame_count :: int
  tracking_history :: "TrackingBox list"
  is_initialized :: bool
  statistics :: Statistics

definition VideoAutoAnnotator_init ::
  "string \<Rightarrow> real \<Rightarrow> real \<Rightarrow> int \<Rightarrow> VideoAutoAnnotator" where
  "VideoAutoAnnotator_init dir high_iou low_iou max_disappeared_arg =
     \<lparr> tracker = SingleObjectTracker_init max_disappeared_arg high_iou low_iou,
       output_dir = dir,
       frame_count = 0,
       tracking_history = [],
       is_initialized = False,
       statistics = Statistics_init \<rparr>"

text \<open>The constructor with its default thresholds.\<close>

definition VideoAutoAnnotator_default :: "string \<Rightarrow> VideoAutoAnnotator" where
  "VideoAutoAnnotator_default dir = VideoAutoAnnotator_init dir 0.5 0.2 30"

text \<open>
  \<open>initialize_from_manual_annotation\<close>. The image argument is not used by the method.
\<close>

definition initialize_from_manual_annotation ::
  "VideoAutoAnnotator \<Rightarrow> ManualBox list \<Rightarrow> VideoAutoAnnotator \<times> TrackingBox list" where
  "initialize_from_manual_annotation a manual_boxes =
     (case manual_boxes of
        [] \<Rightarrow> (a, [])
      | target_box # _ \<Rightarrow>
          let tracking_results =
                [\<lparr> t_track_id = track_id (tracker a),
                   t_x1 = m_x1 target_box, t_y1 = m_y1 target_box,
                   t_x2 = m_x2 target_box, t_y2 = m_y2 target_box,
                   t_confidence = 1.0,
                   t_class_id = m_class_id target_box,
                   t_class_name = m_class_name target_box,
                   t_frame_id = frame_count a \<rparr>];
              st = statistics a
          in (a\<lparr> tracker := initialize_target (tracker a) target_box (frame_count a),
                 is_initialized := True,
                 frame_count := frame_count a + 1,
                 tracking_history := tracking_history a @ tracking_results,
                 statistics :=
                   st\<lparr> st_total_tracks := 1,
                       st_active_tracks := 1,
                       st_tracking_start_frame := frame_count a,
                       st_target_class := m_class_name target_box,
                       st_confidence_sum := st_confidence_sum st + 1.0,
                       st_high_conf_detections := st_high_conf_detections st + 1 \<rparr> \<rparr>,
              tracking_results))"

text \<open>
  A frame as \<open>process_frame\<close> sees it: the list \<open>self.detector.detect(image)\<close> returns
  for it (the detector swallows its own errors and returns the empty list) and
  \<open>image.shape[:2]\<close>.
\<close>

record Image =
  detections_of :: "DetectionBox list"
  image_width :: nat
  image_height :: nat

text \<open>The statistics loop of \<open>process_frame\<close>, with its own thresholds 0.6 and 0.3.\<close>

definition count_detection :: "Statistics \<Rightarrow> DetectionBox \<Rightarrow> Statistics" where
  "count_detection st detection =
     (if d_confidence detection \<ge> 0.6
      then st\<lparr> st_high_conf_detections := st_high_conf_detections st + 1 \<rparr>
      else if d_confidence detection \<ge> 0.3
      then st\<lparr> st_low_conf_detections := st_low_conf_detections st + 1 \<rparr>
      else st)"

text \<open>The first statistics block of \<open>process_frame\<close>: the detections of the frame.\<close>

definition record_detections :: "Statistics \<Rightarrow> DetectionBox list \<Rightarrow> Statistics" where
  "record_detections st detections =
     foldl count_detection
       (st\<lparr> st_total_detections := st_total_detections st + int (length detections) \<rparr>)
       detections"

text \<open>The second statistics block: the outcome of the tracker.\<close>

definition record_tracking :: "Statistics \<Rightarrow> TrackingBox list \<Rightarrow> Statistics" where
  "record_tracking st tracking_results =
     (if tracking_results \<noteq> []
      then st\<lparr> st_successful_tracks := st_successful_tracks st + 1,
               st_active_tracks := 1,
               st_confidence_sum :=
                 foldl (\<lambda>s r. s + t_confidence r) (st_confidence_sum st) tracking_results \<rparr>
      else st\<lparr> st_lost_tracks := st_lost_tracks st + 1,
               st_active_tracks := 0 \<rparr>)"

text \<open>
  \<open>frame_name\<close> is \<open>None\<close> or a string, and the tests \<open>save_image and frame_name\<close> and
  \<open>save_annotation and frame_name\<close> take it as given when it is a non-empty string.
\<close>

definition given_name :: "string option \<Rightarrow> string" where
  "given_name frame_name = (case frame_name of None \<Rightarrow> [] | Some n \<Rightarrow> n)"

text \<open>The image block: the frame is written below \<open>images\<close> and counted.\<close>

definition write_image :: "string \<Rightarrow> FileSystem \<Rightarrow> string option \<Rightarrow> bool \<Rightarrow> FileSystem" where
  "write_image dir fs frame_name save_image =
     (if save_image \<and> given_name frame_name \<noteq> []
      then fs\<lparr> image_files := image_files fs @
                 [path_join (path_join dir ''images'') (given_name frame_name @ ''.jpg'')] \<rparr>
      else fs)"

definition count_image :: "Statistics \<Rightarrow> string option \<Rightarrow> bool \<Rightarrow> Statistics" where
  "count_image st frame_name save_image =
     (if save_image \<and> given_name frame_name \<noteq> []
      then st\<lparr> st_saved_images := st_saved_images st + 1 \<rparr>
      else st)"

text \<open>The annotation block: the label file is written only on request.\<close>

definition write_annotation ::
  "string \<Rightarrow> FileSystem \<Rightarrow> string option \<Rightarrow> bool \<Rightarrow> TrackingBox list \<Rightarrow> Image \<Rightarrow>
   FileSystem \<times> (error + bool)" where
  "write_annotation dir fs frame_name save_annotation tracking_results img =
     (if save_annotation \<and> given_name frame_name \<noteq> []
      then save_frame_annotation dir fs (given_name frame_name) tracking_results
             (image_width img) (image_height img)
      else (fs, Inr False))"

definition count_annotation :: "Statistics \<Rightarrow> bool \<Rightarrow> Statistics" where
  "count_annotation st annotation_saved =
     (if annotation_saved
      then st\<lparr> st_saved_annotations := st_saved_annotations st + 1,
               st_saved_labels := st_saved_labels st + 1 \<rparr>
      else st)"

text \<open>
  \<open>process_frame\<close>. Nothing in the method catches an exception: an error of the tracker
  or of the label writer leaves the method at once, with the changes made so far. Where
  no annotation is requested the flag \<open>annotation_saved\<close> is not set; \<open>False\<close> stands for
  that.
\<close>

definition process_frame ::
  "VideoAutoAnnotator \<Rightarrow> FileSystem \<Rightarrow> Image \<Rightarrow> string option \<Rightarrow> bool \<Rightarrow> bool \<Rightarrow>
   VideoAutoAnnotator \<times> FileSystem \<times> (error + TrackingBox list)" where
  "process_frame a fs img frame_name save_annotation save_image =
     (if \<not> is_initialized a then (a, fs, Inr [])
      else
        let detections = detections_of img;
            st1 = record_detections (statistics a) detections;
            upd = update (tracker a) detections (frame_count a)
        in (case snd upd of
              Inl e \<Rightarrow> (a\<lparr> tracker := fst upd, statistics := st1 \<rparr>, fs, Inl e)
            | Inr tracking_results \<Rightarrow>
                let st2 = record_tracking st1 tracking_results;
                    history = tracking_history a @ tracking_results;
                    fs1 = write_image (output_dir a) fs frame_name save_image;
                    st3 = count_image st2 frame_name save_image;
                    saved = write_annotation (output_dir a) fs1 frame_name save_annotation
                              tracking_results img
                in (case snd saved of
                      Inl e \<Rightarrow>
                        (a\<lparr> tracker := fst upd, statistics := st3,
                            tracking_history := history \<rparr>, fst saved, Inl e)
                    | Inr annotation_saved \<Rightarrow>
                        let st4 = count_annotation st3 annotation_saved
                        in (a\<lparr> tracker := fst upd,
                               tracking_history := history,
                               statistics := st4\<lparr> st_total_frames := frame_count a + 1,
                                                 st_tracking_end_frame := frame_count a \<rparr>,
                               frame_count := frame_count a + 1 \<rparr>,
                            fst saved, Inr tracking_results))))"

definition reset_tracker :: "VideoAutoAnnotator \<Rightarrow> VideoAutoAnnotator" where
  "reset_tracker a =
     a\<lparr> tracker := reset (tracker a), is_initialized := False, frame_count := 0,
        tracking_history := [] \<rparr>"

text \<open>
  A session: \<open>process_frame\<close> on one frame after the other, each with its own arguments
  \<open>(image, frame_name, save_annotation, save_image)\<close>. An exception ends the session.
\<close>

type_synonym frame_call = "Image \<times> string option \<times> bool \<times> bool"

fun process_frames ::
  "VideoAutoAnnotator \<Rightarrow> FileSystem \<Rightarrow> frame_call list \<Rightarrow>
   VideoAutoAnnotator \<times> FileSystem \<times> (error + TrackingBox list) list" where
  "process_frames a fs [] = (a, fs, [])"
| "process_frames a fs ((img, frame_name, save_annotation, save_image) # calls) =
     (let r = process_frame a fs img frame_name save_annotation save_image
      in (case snd (snd r) of
            Inl e \<Rightarrow> (fst r, fst (snd r), [Inl e])
          | Inr res \<Rightarrow>
              let rest = process_frames (fst r) (fst (snd r)) calls
              in (fst rest, fst (snd rest), Inr res # snd (snd rest))))"

text \<open>
  The box claim C6 speaks of: the first box of a list with positive width and height.
  The source has no such test; the definition only states the claim.
\<close>

definition spec_first_valid_box :: "ManualBox list \<Rightarrow> ManualBox option" where
  "spec_first_valid_box manual_boxes =
     find (\<lambda>b. m_x1 b < m_x2 b \<and> m_y1 b < m_y2 b) manual_boxes"

subsection \<open>A scenario\<close>

text \<open>
  The positional constructor of \<open>DetectionBox\<close>, and a tracker seeded with the box
  \<open>(100, 100, 200, 200)\<close> of class \<open>cup\<close> on frame 0 by a tracker with the default
  arguments; \<open>cup_track\<close> is the track that \<open>initialize_target\<close> stores.
\<close>

definition Detection ::
  "real \<Rightarrow> real \<Rightarrow> real \<Rightarrow> real \<Rightarrow> real \<Rightarrow> int \<Rightarrow> string \<Rightarrow> DetectionBox" where
  "Detection x1 y1 x2 y2 conf cid cname =
     \<lparr> d_x1 = x1, d_y1 = y1, d_x2 = x2, d_y2 = y2, d_confidence = conf,
       d_class_id = cid, d_class_name = cname \<rparr>"

definition cup_seed :: ManualBox where
  "cup_seed = \<lparr> m_x1 = 100, m_y1 = 100, m_x2 = 200, m_y2 = 200, m_class_id = 41,
                m_class_name = ''cup'' \<rparr>"

definition cup_track :: Track where
  "cup_track = \<lparr> tk_box = (100, 100, 200, 200), tk_class_id = 41, tk_class_name = ''cup'',
       tk_disappeared = 0, tk_confidence = 1, tk_last_frame = 0, tk_state = ''tracked'' \<rparr>"

definition cup_tracker :: SingleObjectTracker where
  "cup_tracker = initialize_target SingleObjectTracker_default cup_seed 0"

text \<open>
  An annotator built with the thresholds the tracking dialog passes and seeded with the
  same box, an empty writable output directory, a frame without detections, and a frame
  whose only detection is the seeded box itself with confidence 0.9.
\<close>

definition empty_disk :: FileSystem where
  "empty_disk = \<lparr> label_files = Map.empty, image_files = [], writable = True \<rparr>"

definition blank_frame :: Image where
  "blank_frame = \<lparr> detections_of = [], image_width = 640, image_height = 480 \<rparr>"

definition cup_frame :: Image where
  "cup_frame = \<lparr> detections_of = [Detection 100 100 200 200 0.9 41 ''cup''],
                 image_width = 640, image_height = 480 \<rparr>"

definition cup_annotator :: VideoAutoAnnotator where
  "cup_annotator =
     fst (initialize_from_manual_annotation (VideoAutoAnnotator_init ''out'' 0.3 0.15 30) [cup_seed])"

text \<open>A call that only tracks, on a frame without detections.\<close>

definition blank_call :: frame_call where
  "blank_call = (blank_frame, None, False, False)"

text \<open>The seeded annotator after 30 such calls.\<close>

definition lost_cup_annotator :: VideoAutoAnnotator where
  "lost_cup_annotator = fst (process_frames cup_annotator empty_disk (replicate 30 blank_call))"

text \<open>A manual box drawn from the lower right to the upper left corner.\<close>

definition inverted_seed :: ManualBox where
  "inverted_seed = \<lparr> m_x1 = 200, m_y1 = 200, m_x2 = 100, m_y2 = 100, m_class_id = 0,
                     m_class_name = ''person'' \<rparr>"

section \<open>Properties\<close>

subsection \<open>Round trip through the filter state\<close>

lemma state_bbox_initialize:
  "state_bbox (kf_x (initialize kf (x1, y1, x2, y2))) = (x1, y1, x2, y2)"
  by (simp add: initialize_def state_bbox_def Let_def field_simps)

text \<open>
  Claim C9. For every bounding box \<open>(x1, y1, x2, y2)\<close>, \<open>initialize\<close> followed at once by
  \<open>get_current_bbox\<close> gives the box back. Over the reals the round trip is exact.
\<close>

theorem initialize_get_current_bbox:
  "get_current_bbox (initialize kf (x1, y1, x2, y2)) = Some (x1, y1, x2, y2)"
proof -
  have "kf_is_initialized (initialize kf (x1, y1, x2, y2))"
    by (simp add: initialize_def Let_def)
  then show ?thesis
    by (simp add: get_current_bbox_def state_bbox_initialize)
qed

subsection \<open>The covariance along the operations of the filter\<close>

lemma upt8: "[0..<8] = [0,1,2,3,4,5,6,7]" by (simp add: upt_rec)
lemma upt4: "[0..<4] = [0,1,2,3]" by (simp add: upt_rec)

lemma Q_matrix_value: "Q_matrix = [[1 / 10, 0, 0, 0, 0, 0, 0, 0], [0, 1 / 10, 0, 0, 0, 0, 0, 0],
  [0, 0, 1 / 10, 0, 0, 0, 0, 0], [0, 0, 0, 1 / 10, 0, 0, 0, 0],
  [0, 0, 0, 0, 1 / 1000, 0, 0, 0], [0, 0, 0, 0, 0, 1 / 1000, 0, 0],
  [0, 0, 0, 0, 0, 0, 1 / 1000, 0], [0, 0, 0, 0, 0, 0, 0, 1 / 1000]]"
  by (simp add: Q_matrix_def scale_lower_right_def smul_def eye_def ncols_def upt8)

lemma R_matrix_value: "R_matrix = [[10, 0, 0, 0], [0, 10, 0, 0], [0, 0, 10, 0], [0, 0, 0, 10]]"
  by (simp add: R_matrix_def smul_def eye_def upt4)

lemma P_init_banded: "smul (eye 8) 1000 = banded 1000 1000 1000 1000 0 0 0 0 1000 1000 1000 1000"
  by (simp add: smul_def eye_def upt8 banded_def)

lemma predict_banded:
  "madd (dot (dot F_matrix (banded a0 a1 a2 a3 b0 b1 b2 b3 d0 d1 d2 d3)) (transpose_m F_matrix)) Q_matrix
   = banded (a0 + 2 * b0 + d0 + 1 / 10) (a1 + 2 * b1 + d1 + 1 / 10) (a2 + 2 * b2 + d2 + 1 / 10) (a3 + 2 * b3 + d3 + 1 / 10)
       (b0 + d0) (b1 + d1) (b2 + d2) (b3 + d3) (d0 + 1 / 1000) (d1 + 1 / 1000) (d2 + 1 / 1000) (d3 + 1 / 1000)"
  by (simp add: Q_matrix_value F_matrix_def banded_def dot_def transpose_m_def column_def inner_def ncols_def madd_def upt8)

lemma S_banded:
  "madd (dot (dot H_matrix (banded a0 a1 a2 a3 b0 b1 b2 b3 d0 d1 d2 d3)) (transpose_m H_matrix)) R_matrix
   = [[a0 + 10, 0, 0, 0], [0, a1 + 10, 0, 0], [0, 0, a2 + 10, 0], [0, 0, 0, a3 + 10]]"
  by (simp add: R_matrix_value H_matrix_def banded_def dot_def transpose_m_def column_def inner_def ncols_def madd_def upt8 upt4)

lemma inv_diag4:
  assumes "s0 \<noteq> 0" "s1 \<noteq> 0" "s2 \<noteq> 0" "s3 \<noteq> 0"
  shows "linalg_inv [[s0, 0, 0, 0], [0, s1, 0, 0], [0, 0, s2, 0], [0, 0, 0, s3]]
     = Inr [[1 / s0, 0, 0, 0], [0, 1 / s1, 0, 0], [0, 0, 1 / s2, 0], [0, 0, 0, 1 / s3]]"
  using assms
  by (simp add: linalg_inv_def eye_def upt4 find_pivot_def swap_rows_def scale_row_def eliminate_def upt_rec)

lemma gain_banded:
  "msub (banded a0 a1 a2 a3 b0 b1 b2 b3 d0 d1 d2 d3)
     (dot (dot (dot (dot (banded a0 a1 a2 a3 b0 b1 b2 b3 d0 d1 d2 d3) (transpose_m H_matrix))
        [[1 / s0, 0, 0, 0], [0, 1 / s1, 0, 0], [0, 0, 1 / s2, 0], [0, 0, 0, 1 / s3]]) H_matrix)
        (banded a0 a1 a2 a3 b0 b1 b2 b3 d0 d1 d2 d3))
   = banded (a0 - a0 * a0 / s0) (a1 - a1 * a1 / s1) (a2 - a2 * a2 / s2) (a3 - a3 * a3 / s3)
            (b0 - a0 * b0 / s0) (b1 - a1 * b1 / s1) (b2 - a2 * b2 / s2) (b3 - a3 * b3 / s3)
            (d0 - b0 * b0 / s0) (d1 - b1 * b1 / s1) (d2 - b2 * b2 / s2) (d3 - b3 * b3 / s3)"
  by (simp add: H_matrix_def banded_def dot_def transpose_m_def column_def inner_def ncols_def msub_def upt8 upt4)

lemma block_ok_predict:
  assumes "block_ok a b d"
  shows "block_ok (a + 2 * b + d + 1 / 10) (b + d) (d + 1 / 1000)"
proof -
  from assms have h: "0 \<le> a" "0 \<le> b" "0 \<le> d" "b * b \<le> a * d"
    by (simp_all add: block_ok_def)
  have e: "(a + 2 * b + d + 1 / 10) * (d + 1 / 1000) - (b + d) * (b + d)
            = (a * d - b * b) + d / 10 + (a + 2 * b + d + 1 / 10) / 1000"
    by (simp add: field_simps)
  have "0 \<le> d / 10" using h(3) by simp
  moreover have "0 \<le> (a + 2 * b + d + 1 / 10) / 1000" using h(1-3) by simp
  ultimately have "(b + d) * (b + d) \<le> (a + 2 * b + d + 1 / 10) * (d + 1 / 1000)"
    using e h(4) by linarith
  then show ?thesis using h(1-3) by (simp add: block_ok_def)
qed

lemma block_ok_update:
  assumes "block_ok a b d"
  shows "block_ok (a - a * a / (a + 10)) (b - a * b / (a + 10)) (d - b * b / (a + 10))"
proof -
  from assms have h: "0 \<le> a" "0 \<le> b" "0 \<le> d" "b * b \<le> a * d" by (simp_all add: block_ok_def)
  have s: "0 < a + 10" using h by simp
  have ea: "a - a * a / (a + 10) = 10 * a / (a + 10)" using s by (simp add: field_simps)
  have eb: "b - a * b / (a + 10) = 10 * b / (a + 10)" using s by (simp add: field_simps)
  have ed: "d - b * b / (a + 10) = ((a + 10) * d - b * b) / (a + 10)" using s by (simp add: field_simps)
  have n: "0 \<le> (a + 10) * d - b * b" using h by (simp add: algebra_simps)
  have 1: "0 \<le> 10 * a / (a + 10)" using h s by simp
  have 2: "0 \<le> 10 * b / (a + 10)" using h s by simp
  have 3: "0 \<le> ((a + 10) * d - b * b) / (a + 10)" using n s by simp
  have "(10 * b) * (10 * b) \<le> (10 * a) * ((a + 10) * d - b * b)"
  proof -
    have "(10 * a) * ((a + 10) * d - b * b) - (10 * b) * (10 * b) = 10 * (a + 10) * (a * d - b * b)"
      by (simp add: algebra_simps)
    moreover have "0 \<le> 10 * (a + 10) * (a * d - b * b)" using h s by simp
    ultimately show ?thesis by linarith
  qed
  then have "(10 * b) * (10 * b) / ((a + 10) * (a + 10)) \<le> (10 * a) * ((a + 10) * d - b * b) / ((a + 10) * (a + 10))"
    using s by (simp add: divide_right_mono)
  then have 4: "(10 * b / (a + 10)) * (10 * b / (a + 10)) \<le> (10 * a / (a + 10)) * (((a + 10) * d - b * b) / (a + 10))"
    by simp
  show ?thesis unfolding ea eb ed block_ok_def using 1 2 3 4 by blast
qed

lemma cov_ok_banded:
  "cov_ok (banded a0 a1 a2 a3 b0 b1 b2 b3 d0 d1 d2 d3) \<longleftrightarrow>
     block_ok a0 b0 d0 \<and> block_ok a1 b1 d1 \<and> block_ok a2 b2 d2 \<and> block_ok a3 b3 d3"
  by (simp add: cov_ok_def banded_def)

lemma cov_okE:
  assumes "cov_ok M"
  obtains a0 a1 a2 a3 b0 b1 b2 b3 d0 d1 d2 d3 where
    "M = banded a0 a1 a2 a3 b0 b1 b2 b3 d0 d1 d2 d3"
    "block_ok a0 b0 d0" "block_ok a1 b1 d1" "block_ok a2 b2 d2" "block_ok a3 b3 d3"
  using assms unfolding cov_ok_def by blast

lemma column_vectorE:
  assumes "column_vector xv"
  obtains v0 v1 v2 v3 v4 v5 v6 v7 where "xv = [[v0], [v1], [v2], [v3], [v4], [v5], [v6], [v7]]"
  using assms unfolding column_vector_def by blast

lemma column_vector_zeros: "column_vector (zeros 8 1)"
  by (simp add: column_vector_def zeros_def eval_nat_numeral)

lemma column_vector_predict:
  "column_vector xv \<Longrightarrow> column_vector (dot F_matrix xv)"
  by (erule column_vectorE) (simp add: column_vector_def dot_def F_matrix_def ncols_def)

lemma column_vector_update:
  assumes "column_vector xv"
  shows "column_vector (madd xv (dot (dot (dot (banded a0 a1 a2 a3 b0 b1 b2 b3 d0 d1 d2 d3)
             (transpose_m H_matrix)) Si)
           (msub [[z0], [z1], [z2], [z3]] (dot H_matrix xv))))"
  using assms
  by (elim column_vectorE) (simp add: column_vector_def dot_def H_matrix_def ncols_def madd_def
       msub_def banded_def)

lemma kf_inv_init: "kf_inv KalmanFilter_init"
proof -
  have "cov_ok (kf_P KalmanFilter_init)"
    by (simp add: KalmanFilter_init_def P_init_banded [simplified] cov_ok_banded block_ok_def)
  moreover have "column_vector (kf_x KalmanFilter_init)"
    using column_vector_zeros by (simp add: KalmanFilter_init_def)
  ultimately show ?thesis by (simp add: kf_inv_def KalmanFilter_init_def)
qed

lemma kf_inv_initialize: "kf_inv kf \<Longrightarrow> kf_inv (initialize kf b)"
  by (cases b) (simp add: kf_inv_def initialize_def Let_def column_vector_def)

lemma predict_cov:
  assumes "kf_inv kf" "kf_is_initialized kf"
    and "kf_P kf = banded a0 a1 a2 a3 b0 b1 b2 b3 d0 d1 d2 d3"
  shows "kf_P (fst (predict kf)) =
     banded (a0 + 2 * b0 + d0 + 1 / 10) (a1 + 2 * b1 + d1 + 1 / 10) (a2 + 2 * b2 + d2 + 1 / 10) (a3 + 2 * b3 + d3 + 1 / 10)
       (b0 + d0) (b1 + d1) (b2 + d2) (b3 + d3) (d0 + 1 / 1000) (d1 + 1 / 1000) (d2 + 1 / 1000) (d3 + 1 / 1000)"
  using assms by (simp add: predict_def Let_def kf_inv_def predict_banded)

lemma predict_consts:
  "kf_F (fst (predict kf)) = kf_F kf \<and> kf_H (fst (predict kf)) = kf_H kf \<and>
   kf_Q (fst (predict kf)) = kf_Q kf \<and> kf_R (fst (predict kf)) = kf_R kf \<and>
   kf_is_initialized (fst (predict kf)) = kf_is_initialized kf"
  by (simp add: predict_def Let_def)

lemma predict_state:
  "kf_is_initialized kf \<Longrightarrow> kf_x (fst (predict kf)) = dot (kf_F kf) (kf_x kf)"
  by (simp add: predict_def Let_def)

lemma kf_inv_predict:
  assumes "kf_inv kf"
  shows "kf_inv (fst (predict kf))"
proof (cases "kf_is_initialized kf")
  case False
  then show ?thesis using assms by (simp add: predict_def)
next
  case True
  from assms have c: "cov_ok (kf_P kf)" by (simp add: kf_inv_def)
  from c obtain a0 a1 a2 a3 b0 b1 b2 b3 d0 d1 d2 d3 where
    P: "kf_P kf = banded a0 a1 a2 a3 b0 b1 b2 b3 d0 d1 d2 d3" and
    ok: "block_ok a0 b0 d0" "block_ok a1 b1 d1" "block_ok a2 b2 d2" "block_ok a3 b3 d3"
    by (rule cov_okE)
  have "cov_ok (kf_P (fst (predict kf)))"
    unfolding predict_cov [OF assms True P] cov_ok_banded
    using ok by (simp add: block_ok_predict)
  moreover have "column_vector (kf_x (fst (predict kf)))"
    using assms by (simp add: predict_state [OF True] kf_inv_def column_vector_predict)
  ultimately show ?thesis using assms predict_consts [of kf] by (simp add: kf_inv_def)
qed

lemma predict_position_variance:
  assumes "kf_inv kf" "i < 4"
  shows "kf_P kf ! i ! i \<le> kf_P (fst (predict kf)) ! i ! i"
proof (cases "kf_is_initialized kf")
  case False
  then show ?thesis by (simp add: predict_def)
next
  case True
  from assms have c: "cov_ok (kf_P kf)" by (simp add: kf_inv_def)
  from c obtain a0 a1 a2 a3 b0 b1 b2 b3 d0 d1 d2 d3 where
    P: "kf_P kf = banded a0 a1 a2 a3 b0 b1 b2 b3 d0 d1 d2 d3" and
    ok: "block_ok a0 b0 d0" "block_ok a1 b1 d1" "block_ok a2 b2 d2" "block_ok a3 b3 d3"
    by (rule cov_okE)
  from \<open>i < 4\<close> have "i = 0 \<or> i = 1 \<or> i = 2 \<or> i = 3" by arith
  then show ?thesis
    unfolding predict_cov [OF assms(1) True P] P
    using ok by (auto simp: banded_def block_ok_def)
qed

lemma kf_update_cov:
  assumes "kf_inv kf" "kf_is_initialized kf"
    and P: "kf_P kf = banded a0 a1 a2 a3 b0 b1 b2 b3 d0 d1 d2 d3"
    and ok: "block_ok a0 b0 d0" "block_ok a1 b1 d1" "block_ok a2 b2 d2" "block_ok a3 b3 d3"
  shows "\<exists>kf'. kf_update kf b = Inr kf' \<and> kf_F kf' = kf_F kf \<and> kf_H kf' = kf_H kf
            \<and> kf_Q kf' = kf_Q kf \<and> kf_R kf' = kf_R kf \<and> kf_is_initialized kf'
            \<and> column_vector (kf_x kf')
            \<and> kf_P kf' =
     banded (a0 - a0 * a0 / (a0 + 10)) (a1 - a1 * a1 / (a1 + 10)) (a2 - a2 * a2 / (a2 + 10)) (a3 - a3 * a3 / (a3 + 10))
            (b0 - a0 * b0 / (a0 + 10)) (b1 - a1 * b1 / (a1 + 10)) (b2 - a2 * b2 / (a2 + 10)) (b3 - a3 * b3 / (a3 + 10))
            (d0 - b0 * b0 / (a0 + 10)) (d1 - b1 * b1 / (a1 + 10)) (d2 - b2 * b2 / (a2 + 10)) (d3 - b3 * b3 / (a3 + 10))"
proof -
  from ok have nz: "a0 + 10 \<noteq> 0" "a1 + 10 \<noteq> 0" "a2 + 10 \<noteq> 0" "a3 + 10 \<noteq> 0"
    by (simp_all add: block_ok_def)
  obtain x1 y1 x2 y2 where b: "b = (x1, y1, x2, y2)" by (cases b) auto
  from assms(1) have k: "kf_F kf = F_matrix" "kf_H kf = H_matrix" "kf_Q kf = Q_matrix" "kf_R kf = R_matrix"
    and cv: "column_vector (kf_x kf)"
    by (simp_all add: kf_inv_def)
  show ?thesis
    using assms(2)
    by (simp add: kf_update_def b Let_def k P S_banded inv_diag4 [OF nz] gain_banded
        column_vector_update [OF cv])
qed

lemma kf_update_total:
  assumes "kf_inv kf"
  shows "\<exists>kf'. kf_update kf b = Inr kf' \<and> kf_inv kf' \<and> kf_is_initialized kf'"
proof (cases "kf_is_initialized kf")
  case False
  then show ?thesis using kf_inv_initialize [OF assms, of b]
    by (cases b) (simp add: kf_update_def initialize_def Let_def)
next
  case True
  from assms have c: "cov_ok (kf_P kf)" by (simp add: kf_inv_def)
  from c obtain a0 a1 a2 a3 b0 b1 b2 b3 d0 d1 d2 d3 where
    P: "kf_P kf = banded a0 a1 a2 a3 b0 b1 b2 b3 d0 d1 d2 d3" and
    ok: "block_ok a0 b0 d0" "block_ok a1 b1 d1" "block_ok a2 b2 d2" "block_ok a3 b3 d3"
    by (rule cov_okE)
  from kf_update_cov [OF assms True P ok, of b] obtain kf' where
    u: "kf_update kf b = Inr kf'" and
    c: "kf_F kf' = kf_F kf" "kf_H kf' = kf_H kf" "kf_Q kf' = kf_Q kf" "kf_R kf' = kf_R kf"
       "kf_is_initialized kf'" "column_vector (kf_x kf')" and
    P': "kf_P kf' =
     banded (a0 - a0 * a0 / (a0 + 10)) (a1 - a1 * a1 / (a1 + 10)) (a2 - a2 * a2 / (a2 + 10)) (a3 - a3 * a3 / (a3 + 10))
            (b0 - a0 * b0 / (a0 + 10)) (b1 - a1 * b1 / (a1 + 10)) (b2 - a2 * b2 / (a2 + 10)) (b3 - a3 * b3 / (a3 + 10))
            (d0 - b0 * b0 / (a0 + 10)) (d1 - b1 * b1 / (a1 + 10)) (d2 - b2 * b2 / (a2 + 10)) (d3 - b3 * b3 / (a3 + 10))"
    by blast
  have "cov_ok (kf_P kf')" unfolding P' cov_ok_banded using ok by (simp add: block_ok_update)
  then have "kf_inv kf'" using assms c by (simp add: kf_inv_def)
  then show ?thesis using u c by blast
qed

lemma kf_apply_inv:
  assumes "kf_inv kf"
  shows "\<exists>kf'. kf_apply kf op = Inr kf' \<and> kf_inv kf'"
proof (cases op)
  case (Initialize b)
  then show ?thesis using kf_inv_initialize [OF assms] by simp
next
  case Predict
  then show ?thesis using kf_inv_predict [OF assms] by simp
next
  case (Update b)
  then show ?thesis using kf_update_total [OF assms, of b] by auto
qed

lemma kf_run_inv:
  "kf_inv kf \<Longrightarrow> \<exists>kf'. kf_run kf ops = Inr kf' \<and> kf_inv kf'"
proof (induction ops arbitrary: kf)
  case Nil
  then show ?case by simp
next
  case (Cons op ops)
  from kf_apply_inv [OF Cons.prems, of op] obtain k1 where
    a: "kf_apply kf op = Inr k1" and i: "kf_inv k1" by blast
  from Cons.IH [OF i] show ?case using a by simp
qed

lemma kf_inv_predict_n: "kf_inv kf \<Longrightarrow> kf_inv (predict_n n kf)"
  by (induction n arbitrary: kf) (simp_all add: kf_inv_predict)

lemma predict_n_Suc: "predict_n (Suc n) kf = fst (predict (predict_n n kf))"
  by (induction n arbitrary: kf) simp_all

text \<open>
  Claim C8. From any filter a caller can reach from the constructor with \<open>initialize\<close>,
  \<open>predict\<close> and \<open>update\<close>, consecutive calls of \<open>predict\<close> never decrease the four
  position entries \<open>P[i][i]\<close>, \<open>i < 4\<close>, of the covariance: the entry after \<open>n + 1\<close> calls
  is at least the entry after \<open>n\<close> calls.
\<close>

theorem predict_never_shrinks_position_variance:
  assumes "kf_run KalmanFilter_init ops = Inr kf" and "i < 4"
  shows "kf_P (predict_n n kf) ! i ! i \<le> kf_P (predict_n (Suc n) kf) ! i ! i"
proof -
  from kf_run_inv [OF kf_inv_init, of ops] assms(1) have "kf_inv kf" by simp
  then have "kf_inv (predict_n n kf)" by (rule kf_inv_predict_n)
  from predict_position_variance [OF this assms(2)] show ?thesis
    by (simp only: predict_n_Suc)
qed

text \<open>
  An instance: after \<open>initialize\<close>, one \<open>predict\<close> and one \<open>update\<close> the entry \<open>P[0][0]\<close> is
  \<open>200010/20101\<close>, and the next three calls of \<open>predict\<close> do not decrease it.
\<close>

theorem predict_never_shrinks_position_variance_witness:
  "\<exists>kf. kf_run KalmanFilter_init [Initialize (0, 0, 10, 10), Predict, Update (0, 0, 10, 8)] = Inr kf
      \<and> kf_P kf ! 0 ! 0 = 200010 / 20101 \<and> (0::nat) < 4
      \<and> kf_P (predict_n 2 kf) ! 0 ! 0 \<le> kf_P (predict_n (Suc 2) kf) ! 0 ! 0"
proof -
  define kf where "kf =
    \<lparr> kf_dt = 1,
      kf_x = [[5], [80504 / 20101], [10], [161008 / 20101], [0], [- (10000 / 20101)], [0],
              [- (20000 / 20101)]],
      kf_F = F_matrix, kf_H = H_matrix, kf_Q = Q_matrix, kf_R = R_matrix,
      kf_P = banded (200010 / 20101) (200010 / 20101) (200010 / 20101) (200010 / 20101)
               (100000 / 20101) (100000 / 20101) (100000 / 20101) (100000 / 20101)
               (10101020101 / 20101000) (10101020101 / 20101000)
               (10101020101 / 20101000) (10101020101 / 20101000),
      kf_is_initialized = True \<rparr>"
  have run: "kf_run KalmanFilter_init [Initialize (0, 0, 10, 10), Predict, Update (0, 0, 10, 8)] = Inr kf"
    by (simp add: kf_def KalmanFilter_init_def initialize_def predict_def kf_update_def Let_def
        F_matrix_def H_matrix_def Q_matrix_value R_matrix_value smul_def
        banded_def dot_def transpose_m_def column_def inner_def ncols_def madd_def msub_def
        upt8 upt4 linalg_inv_def eye_def find_pivot_def swap_rows_def scale_row_def
        eliminate_def upt_rec zeros_def)
  have p: "kf_P kf ! 0 ! 0 = 200010 / 20101"
    by (simp add: kf_def banded_def)
  have "(0::nat) < 4" by simp
  from predict_never_shrinks_position_variance [OF run this, of 2]
  have "kf_P (predict_n 2 kf) ! 0 ! 0 \<le> kf_P (predict_n (Suc 2) kf) ! 0 ! 0" .
  with run p show ?thesis
    by (intro exI [of _ kf]) simp
qed

subsection \<open>One step of the tracker\<close>

lemma predict_initialized:
  "kf_is_initialized kf \<Longrightarrow> snd (predict kf) = Some (state_bbox (kf_x (fst (predict kf))))"
  by (simp add: predict_def Let_def)

lemma predicted_bbox_initialized:
  "kf_is_initialized (kalman_filter tr) \<Longrightarrow> snd (predict (kalman_filter tr)) = Some (predicted_bbox tr t)"
  by (simp add: predicted_bbox_def predict_initialized)

lemma update_not_tracking: "\<not> is_tracking tr \<Longrightarrow> update tr detections frame_id = (tr, Inr [])"
  by (simp add: update_def split: option.splits)

lemma update_no_track: "target_track tr = None \<Longrightarrow> update tr detections frame_id = (tr, Inr [])"
  by (simp add: update_def)

lemma update_lost:
  assumes "is_tracking tr" "target_track tr = Some t"
    and "best_match (frame_match tr t detections) = None"
    and "tk_disappeared t + 1 \<le> max_disappeared tr"
  shows "update tr detections frame_id =
     (tr\<lparr> kalman_filter := fst (predict (kalman_filter tr)),
          target_track := Some (t\<lparr> tk_disappeared := tk_disappeared t + 1, tk_state := ''lost'' \<rparr>) \<rparr>,
      Inr [\<lparr> t_track_id = track_id tr,
             t_x1 = fst (predicted_bbox tr t),
             t_y1 = fst (snd (predicted_bbox tr t)),
             t_x2 = fst (snd (snd (predicted_bbox tr t))),
             t_y2 = snd (snd (snd (predicted_bbox tr t))),
             t_confidence = max 0.1 (tk_confidence t - 0.05 * real_of_int (tk_disappeared t + 1)),
             t_class_id = tk_class_id t,
             t_class_name = tk_class_name t,
             t_frame_id = frame_id \<rparr>])"
  using assms by (simp add: update_def Let_def)

lemma update_terminates:
  assumes "is_tracking tr" "target_track tr = Some t"
    and "best_match (frame_match tr t detections) = None"
    and "tk_disappeared t + 1 > max_disappeared tr"
  shows "update tr detections frame_id =
     (tr\<lparr> kalman_filter := fst (predict (kalman_filter tr)), is_tracking := False,
          target_track := None \<rparr>, Inr [])"
  using assms by (simp add: update_def Let_def)

lemma update_matched:
  assumes "is_tracking tr" "target_track tr = Some t"
    and "best_match (frame_match tr t detections) = Some bm"
    and "kf_update (fst (predict (kalman_filter tr))) (det_box bm) = Inr kf2"
    and "get_current_bbox kf2 = Some kb"
  shows "update tr detections frame_id =
     (tr\<lparr> kalman_filter := kf2,
          target_track := Some (t\<lparr> tk_box := det_box bm,
                                     tk_confidence := d_confidence bm,
                                     tk_disappeared := 0,
                                     tk_last_frame := frame_id,
                                     tk_state := ''tracked'' \<rparr>) \<rparr>,
      Inr [\<lparr> t_track_id = track_id tr,
             t_x1 = fst kb,
             t_y1 = fst (snd kb),
             t_x2 = fst (snd (snd kb)),
             t_y2 = snd (snd (snd kb)),
             t_confidence = d_confidence bm,
             t_class_id = tk_class_id t,
             t_class_name = tk_class_name t,
             t_frame_id = frame_id \<rparr>])"
  using assms by (simp add: update_def Let_def det_box_def)

lemma get_current_bbox_initialized:
  "kf_is_initialized kf \<Longrightarrow> get_current_bbox kf = Some (state_bbox (kf_x kf))"
  by (simp add: get_current_bbox_def)

lemma tracker_ok_init: "tracker_ok (SingleObjectTracker_init m h l)"
  by (simp add: tracker_ok_def SingleObjectTracker_init_def kf_inv_init)

lemma initialize_initialized: "kf_is_initialized (initialize kf b)"
  by (cases b) (simp add: initialize_def Let_def)

lemma tracker_ok_initialize_target:
  "tracker_ok tr \<Longrightarrow> tracker_ok (initialize_target tr manual_box frame_id)"
  by (simp add: tracker_ok_def initialize_target_def Let_def kf_inv_initialize
      initialize_initialized)

lemma tracker_ok_reset: "tracker_ok (reset tr)"
  by (simp add: tracker_ok_def reset_def kf_inv_init)

lemma update_total:
  assumes "tracker_ok tr"
  shows "\<exists>tr' res. update tr detections frame_id = (tr', Inr res) \<and> tracker_ok tr'"
proof (cases "is_tracking tr")
  case False
  then show ?thesis using assms by (simp add: update_not_tracking)
next
  case True
  with assms obtain t where t: "target_track tr = Some t"
    and ini: "kf_is_initialized (kalman_filter tr)" and inv: "kf_inv (kalman_filter tr)"
    by (auto simp: tracker_ok_def)
  have inv1: "kf_inv (fst (predict (kalman_filter tr)))" using inv by (rule kf_inv_predict)
  have ini1: "kf_is_initialized (fst (predict (kalman_filter tr)))"
    using ini predict_consts [of "kalman_filter tr"] by simp
  show ?thesis
  proof (cases "best_match (frame_match tr t detections)")
    case None
    show ?thesis
    proof (cases "tk_disappeared t + 1 \<le> max_disappeared tr")
      case le: True
      show ?thesis
        unfolding update_lost [OF True t None le]
        using inv1 ini1 by (simp add: tracker_ok_def)
    next
      case gt: False
      then have "tk_disappeared t + 1 > max_disappeared tr" by simp
      from update_terminates [OF True t None this] show ?thesis
        using inv1 by (simp add: tracker_ok_def)
    qed
  next
    case (Some bm)
    from kf_update_total [OF inv1, of "det_box bm"] obtain kf2 where
      u: "kf_update (fst (predict (kalman_filter tr))) (det_box bm) = Inr kf2"
      and inv2: "kf_inv kf2" and ini2: "kf_is_initialized kf2" by blast
    from update_matched [OF True t Some u get_current_bbox_initialized [OF ini2]]
    show ?thesis using inv2 ini2 by (simp add: tracker_ok_def)
  qed
qed

text \<open>
  Claim C4. On a frame that finds no match and leaves the track alive (the incremented
  counter does not exceed \<open>max_disappeared\<close>), \<open>update\<close> adds exactly 1 to \<open>disappeared\<close>
  and returns exactly one box: its coordinates are the prediction of the Kalman filter
  and its confidence is \<open>max(0.1, confidence - 0.05 * disappeared)\<close>, with the stored
  confidence of the track (that of the last match, which the frame leaves as it is) and
  the incremented counter.
\<close>

theorem unmatched_frame_emits_prediction:
  assumes "tracker_ok tr" and "is_tracking tr" and "target_track tr = Some t"
    and "best_match (frame_match tr t detections) = None"
    and "tk_disappeared t + 1 \<le> max_disappeared tr"
  shows "\<exists>tr' r t'. update tr detections frame_id = (tr', Inr [r])
           \<and> is_tracking tr' \<and> target_track tr' = Some t'
           \<and> tk_disappeared t' = tk_disappeared t + 1
           \<and> tk_confidence t' = tk_confidence t
           \<and> snd (predict (kalman_filter tr)) = Some (tracking_bbox r)
           \<and> t_confidence r = max 0.1 (tk_confidence t - 0.05 * real_of_int (tk_disappeared t'))"
proof -
  from assms(1,2) have "kf_is_initialized (kalman_filter tr)" by (simp add: tracker_ok_def)
  then have "snd (predict (kalman_filter tr)) = Some (predicted_bbox tr t)"
    by (rule predicted_bbox_initialized)
  then show ?thesis
    unfolding update_lost [OF assms(2-5)]
    using assms(2) by (simp add: tracking_bbox_def)
qed

text \<open>
  Claim C10. On a frame with a match, whatever round found it, \<open>update\<close> returns one box
  whose coordinates are \<open>get_current_bbox\<close> of the filter after its update with the matched
  box, and whose confidence is that of the matched detection; the track stores the raw
  box of the detection, with \<open>disappeared\<close> reset to 0.
\<close>

theorem matched_frame_emits_filter_estimate:
  assumes "tracker_ok tr" and "is_tracking tr" and "target_track tr = Some t"
    and "best_match (frame_match tr t detections) = Some bm"
  shows "\<exists>tr' r t'. update tr detections frame_id = (tr', Inr [r])
           \<and> kf_update (fst (predict (kalman_filter tr))) (det_box bm) = Inr (kalman_filter tr')
           \<and> get_current_bbox (kalman_filter tr') = Some (tracking_bbox r)
           \<and> t_confidence r = d_confidence bm
           \<and> target_track tr' = Some t'
           \<and> tk_box t' = det_box bm
           \<and> tk_confidence t' = d_confidence bm
           \<and> tk_disappeared t' = 0 \<and> tk_state t' = ''tracked''"
proof -
  from assms(1) have "kf_inv (kalman_filter tr)" by (simp add: tracker_ok_def)
  then have "kf_inv (fst (predict (kalman_filter tr)))" by (rule kf_inv_predict)
  from kf_update_total [OF this, of "det_box bm"] obtain kf2 where
    u: "kf_update (fst (predict (kalman_filter tr))) (det_box bm) = Inr kf2"
    and ini2: "kf_is_initialized kf2" by blast
  show ?thesis
    unfolding update_matched [OF assms(2-4) u get_current_bbox_initialized [OF ini2]]
    using u ini2 by (simp add: tracking_bbox_def get_current_bbox_def)
qed

subsection \<open>The matching rounds\<close>

lemma high_conf_step_keeps_match:
  "best_match s \<noteq> None \<Longrightarrow> best_match (high_conf_step rb c thr s d) \<noteq> None"
  by (auto simp: high_conf_step_def Let_def)

lemma foldl_high_conf_keeps_match:
  "best_match s \<noteq> None \<Longrightarrow> best_match (foldl (high_conf_step rb c thr) s ds) \<noteq> None"
  by (induction ds arbitrary: s) (simp_all add: high_conf_step_keeps_match del: not_None_eq)

lemma high_conf_step_no_match_zero:
  "(best_match s = None \<longrightarrow> best_iou s = 0) \<Longrightarrow>
     best_match (high_conf_step rb c thr s d) = None \<longrightarrow> best_iou (high_conf_step rb c thr s d) = 0"
  by (simp add: high_conf_step_def Let_def)

lemma foldl_high_conf_no_match_zero:
  "(best_match s = None \<longrightarrow> best_iou s = 0) \<Longrightarrow>
     best_match (foldl (high_conf_step rb c thr) s ds) = None
       \<longrightarrow> best_iou (foldl (high_conf_step rb c thr) s ds) = 0"
proof (induction ds arbitrary: s)
  case Nil
  then show ?case by simp
next
  case (Cons d ds)
  from Cons.IH [OF high_conf_step_no_match_zero [OF Cons.prems]] show ?case by simp
qed

lemma high_conf_step_accepts:
  assumes "best_match s = None \<longrightarrow> best_iou s = 0"
    and "d_class_id h = c" and "calculate_iou rb (det_box h) > thr" and "0 \<le> thr"
  shows "best_match (high_conf_step rb c thr s h) \<noteq> None"
proof (cases "calculate_iou rb (det_box h) > best_iou s")
  case True
  with assms show ?thesis by (simp add: high_conf_step_def Let_def)
next
  case False
  with assms(3,4) have "best_iou s \<noteq> 0" by simp
  with assms(1) have "best_match s \<noteq> None" by blast
  then show ?thesis by (rule high_conf_step_keeps_match)
qed

lemma foldl_high_conf_finds:
  assumes "h \<in> set ds" and "d_class_id h = c" and "calculate_iou rb (det_box h) > thr"
    and "0 \<le> thr"
  shows "best_match (foldl (high_conf_step rb c thr) no_match ds) \<noteq> None"
proof -
  from assms(1) obtain pre post where ds: "ds = pre @ h # post"
    by (auto simp: in_set_conv_decomp)
  have z: "best_match no_match = None \<longrightarrow> best_iou no_match = 0" by (simp add: no_match_def)
  let ?s = "foldl (high_conf_step rb c thr) no_match pre"
  from foldl_high_conf_no_match_zero [OF z, of rb c thr pre]
  have "best_match ?s = None \<longrightarrow> best_iou ?s = 0" .
  from high_conf_step_accepts [OF this assms(2-4)]
  have "best_match (high_conf_step rb c thr ?s h) \<noteq> None" .
  from foldl_high_conf_keeps_match [OF this, of rb c thr post] show ?thesis
    by (simp add: ds)
qed

lemma high_conf_step_member:
  "best_match (high_conf_step rb c thr s d) = Some m \<Longrightarrow> m = d \<or> best_match s = Some m"
  by (auto simp: high_conf_step_def Let_def split: if_splits)

lemma foldl_high_conf_member:
  "best_match (foldl (high_conf_step rb c thr) s ds) = Some m \<Longrightarrow>
     m \<in> set ds \<or> best_match s = Some m"
proof (induction ds arbitrary: s)
  case Nil
  then show ?case by simp
next
  case (Cons d ds)
  from Cons.IH [of "high_conf_step rb c thr s d"] Cons.prems
  have "m \<in> set ds \<or> best_match (high_conf_step rb c thr s d) = Some m" by simp
  then show ?case using high_conf_step_member [of rb c thr s d m] by auto
qed

lemma later_rounds_skipped:
  assumes "best_match (first_round tr t rb ds) \<noteq> None"
  shows "match_detections tr t rb ds = first_round tr t rb ds"
  using assms by (auto simp: match_detections_def second_round_def third_round_def)

lemma calculate_iou_nonneg: "0 \<le> calculate_iou box1 box2"
proof -
  obtain a1 b1 a2 b2 where b1: "box1 = (a1, b1, a2, b2)" by (cases box1) auto
  obtain c1 e1 c2 e2 where b2: "box2 = (c1, e1, c2, e2)" by (cases box2) auto
  show ?thesis
  proof (cases "max a1 c1 \<ge> min a2 c2 \<or> max b1 e1 \<ge> min b2 e2")
    case True
    then show ?thesis by (auto simp: b1 b2 calculate_iou_def Let_def)
  next
    case False
    let ?w = "min a2 c2 - max a1 c1" and ?h = "min b2 e2 - max b1 e1"
    from False have w: "0 < ?w" and h: "0 < ?h" by auto
    have i: "0 \<le> ?w * ?h" using w h by simp
    have w1: "?w \<le> a2 - a1" and h1: "?h \<le> b2 - b1" by auto
    have w2: "?w \<le> c2 - c1" and h2: "?h \<le> e2 - e1" by auto
    have "?w * ?h \<le> (a2 - a1) * (b2 - b1)"
      using w h w1 h1 by (intro mult_mono) auto
    moreover have "0 \<le> (c2 - c1) * (e2 - e1)"
      using w h w2 h2 by (intro mult_nonneg_nonneg) auto
    ultimately have u: "0 \<le> (a2 - a1) * (b2 - b1) + (c2 - c1) * (e2 - e1) - ?w * ?h" by linarith
    from False have "calculate_iou box1 box2 =
        (if (a2 - a1) * (b2 - b1) + (c2 - c1) * (e2 - e1) - ?w * ?h = 0 then 0
         else ?w * ?h / ((a2 - a1) * (b2 - b1) + (c2 - c1) * (e2 - e1) - ?w * ?h))"
      by (simp add: b1 b2 calculate_iou_def Let_def)
    then show ?thesis using i u by simp
  qed
qed

lemma same_class_best_step:
  assumes "same_class_best rb c thr xs s"
  shows "same_class_best rb c thr (xs @ [d]) (high_conf_step rb c thr s d)"
proof -
  let ?iou = "\<lambda>d. calculate_iou rb (det_box d)"
  from assms have z: "best_match s = None \<longrightarrow> best_iou s = 0" and n: "0 \<le> best_iou s"
    and le: "\<forall>e\<in>set xs. d_class_id e = c \<longrightarrow> ?iou e \<le> best_iou s \<or> ?iou e \<le> thr"
    and bm: "\<forall>m. best_match s = Some m \<and> d_class_id m = c \<longrightarrow>
            best_iou s = ?iou m \<and> ?iou m > thr
            \<and> (\<exists>pre post. xs = pre @ m # post
                  \<and> (\<forall>e\<in>set pre. d_class_id e = c \<longrightarrow> ?iou e < ?iou m)
                  \<and> (\<forall>e\<in>set post. d_class_id e = c \<longrightarrow> ?iou e \<le> ?iou m))"
    by (simp_all add: same_class_best_def)
  consider (same_accept) "d_class_id d = c" "?iou d > best_iou s" "?iou d > thr"
    | (same_reject) "d_class_id d = c" "\<not> (?iou d > best_iou s \<and> ?iou d > thr)"
    | (other_accept) "d_class_id d \<noteq> c" "best_match s = None" "?iou d > thr * 1.2"
    | (other_reject) "d_class_id d \<noteq> c" "\<not> (best_match s = None \<and> ?iou d > thr * 1.2)"
    by meson
  then show ?thesis
  proof cases
    case same_accept
    then have s': "high_conf_step rb c thr s d =
        \<lparr> best_match = Some d, best_iou = ?iou d, match_source = ''high_conf_same_class'' \<rparr>"
      by (simp add: high_conf_step_def Let_def)
    have lt: "\<forall>e\<in>set xs. d_class_id e = c \<longrightarrow> ?iou e < ?iou d"
      using le same_accept(2,3) by fastforce
    have "\<exists>pre post. xs @ [d] = pre @ d # post
                  \<and> (\<forall>e\<in>set pre. d_class_id e = c \<longrightarrow> ?iou e < ?iou d)
                  \<and> (\<forall>e\<in>set post. d_class_id e = c \<longrightarrow> ?iou e \<le> ?iou d)"
      using lt by (intro exI [of _ xs] exI [of _ "[]"]) simp
    moreover have "\<forall>e\<in>set (xs @ [d]). d_class_id e = c \<longrightarrow> ?iou e \<le> ?iou d \<or> ?iou e \<le> thr"
      using lt by fastforce
    moreover have "0 \<le> ?iou d" by (rule calculate_iou_nonneg)
    ultimately show ?thesis
      unfolding s' same_class_best_def using same_accept(3) by simp
  next
    case same_reject
    then have s': "high_conf_step rb c thr s d = s"
      by (auto simp: high_conf_step_def Let_def)
    from same_reject(2) have d: "?iou d \<le> best_iou s \<or> ?iou d \<le> thr" by auto
    have "\<exists>pre post. xs @ [d] = pre @ m # post
                  \<and> (\<forall>e\<in>set pre. d_class_id e = c \<longrightarrow> ?iou e < ?iou m)
                  \<and> (\<forall>e\<in>set post. d_class_id e = c \<longrightarrow> ?iou e \<le> ?iou m)"
      if m: "best_match s = Some m" "d_class_id m = c" for m
    proof -
      from bm m obtain pre post where b: "best_iou s = ?iou m" and t: "?iou m > thr"
        and x: "xs = pre @ m # post"
        and p: "\<forall>e\<in>set pre. d_class_id e = c \<longrightarrow> ?iou e < ?iou m"
        and q: "\<forall>e\<in>set post. d_class_id e = c \<longrightarrow> ?iou e \<le> ?iou m"
        by blast
      from d b t have "?iou d \<le> ?iou m" by auto
      with q have "\<forall>e\<in>set (post @ [d]). d_class_id e = c \<longrightarrow> ?iou e \<le> ?iou m" by auto
      with x p show ?thesis by (intro exI [of _ pre] exI [of _ "post @ [d]"]) simp
    qed
    with z n le d bm show ?thesis
      unfolding s' same_class_best_def by auto
  next
    case other_accept
    then have s': "high_conf_step rb c thr s d =
        \<lparr> best_match = Some d, best_iou = ?iou d, match_source = ''high_conf_diff_class'' \<rparr>"
      by (simp add: high_conf_step_def Let_def)
    from z other_accept(2) have b0: "best_iou s = 0" by simp
    have nn: "0 \<le> ?iou d" by (rule calculate_iou_nonneg)
    have "\<forall>e\<in>set (xs @ [d]). d_class_id e = c \<longrightarrow> ?iou e \<le> ?iou d \<or> ?iou e \<le> thr"
      using le b0 nn other_accept(1) by fastforce
    with nn other_accept(1) show ?thesis
      unfolding s' same_class_best_def by simp
  next
    case other_reject
    then have s': "high_conf_step rb c thr s d = s"
      by (auto simp: high_conf_step_def Let_def)
    have "\<exists>pre post. xs @ [d] = pre @ m # post
                  \<and> (\<forall>e\<in>set pre. d_class_id e = c \<longrightarrow> ?iou e < ?iou m)
                  \<and> (\<forall>e\<in>set post. d_class_id e = c \<longrightarrow> ?iou e \<le> ?iou m)"
      if m: "best_match s = Some m" "d_class_id m = c" for m
    proof -
      from bm m obtain pre post where x: "xs = pre @ m # post"
        and p: "\<forall>e\<in>set pre. d_class_id e = c \<longrightarrow> ?iou e < ?iou m"
        and q: "\<forall>e\<in>set post. d_class_id e = c \<longrightarrow> ?iou e \<le> ?iou m"
        by blast
      from q other_reject(1)
      have "\<forall>e\<in>set (post @ [d]). d_class_id e = c \<longrightarrow> ?iou e \<le> ?iou m" by auto
      with x p show ?thesis by (intro exI [of _ pre] exI [of _ "post @ [d]"]) simp
    qed
    with z n le other_reject(1) bm show ?thesis
      unfolding s' same_class_best_def by auto
  qed
qed

lemma same_class_best_foldl:
  "same_class_best rb c thr xs s \<Longrightarrow>
     same_class_best rb c thr (xs @ ys) (foldl (high_conf_step rb c thr) s ys)"
proof (induction ys arbitrary: xs s)
  case Nil
  then show ?case by simp
next
  case (Cons d ys)
  from Cons.IH [OF same_class_best_step [OF Cons.prems, of d]] show ?case by simp
qed

text \<open>
  When the first round ends with a detection of the class of the track, it is a
  high-confidence detection above the threshold whose IoU no other high-confidence
  detection of that class exceeds, and the first of them in the order of the detector
  with that IoU.
\<close>

lemma first_round_same_class_is_first_best:
  assumes "best_match (first_round tr t rb detections) = Some m"
    and "d_class_id m = tk_class_id t"
  shows "calculate_iou rb (det_box m) > high_iou_threshold tr
       \<and> (\<exists>pre post. high_conf_detections tr detections = pre @ m # post
             \<and> (\<forall>d\<in>set pre. d_class_id d = tk_class_id t \<longrightarrow>
                   calculate_iou rb (det_box d) < calculate_iou rb (det_box m))
             \<and> (\<forall>d\<in>set post. d_class_id d = tk_class_id t \<longrightarrow>
                   calculate_iou rb (det_box d) \<le> calculate_iou rb (det_box m)))"
proof -
  have "same_class_best rb (tk_class_id t) (high_iou_threshold tr) [] no_match"
    by (simp add: same_class_best_def no_match_def)
  from same_class_best_foldl [OF this, of "high_conf_detections tr detections"]
  have "same_class_best rb (tk_class_id t) (high_iou_threshold tr)
          (high_conf_detections tr detections) (first_round tr t rb detections)"
    by (simp add: first_round_def)
  with assms show ?thesis unfolding same_class_best_def by blast
qed

text \<open>
  What holds of the precedence of the first round. When the detections contain a
  high-confidence detection \<open>h\<close> of the class of the track whose IoU with the reference
  box exceeds a non-negative \<open>high_iou_threshold\<close>, the first round finds a match among
  the high-confidence detections (\<open>h\<close> itself when \<open>h\<close> is the only one), whatever
  low-confidence detections with a larger IoU there are, and the later rounds change
  nothing. The loop over the low-confidence detections runs only when the first round
  has no match. The lemma does not say that the match is of the class of the track.
\<close>

lemma high_confidence_beats_low_confidence:
  assumes "h \<in> set detections" and "d_confidence h \<ge> high_conf_threshold tr"
    and "d_class_id h = tk_class_id t"
    and "calculate_iou rb (det_box h) > high_iou_threshold tr"
    and "0 \<le> high_iou_threshold tr"
  shows "\<exists>m. best_match (match_detections tr t rb detections) = Some m
           \<and> m \<in> set detections \<and> d_confidence m \<ge> high_conf_threshold tr
           \<and> (high_conf_detections tr detections = [h] \<longrightarrow> m = h)
           \<and> match_detections tr t rb detections = first_round tr t rb detections
           \<and> (\<forall>ds. best_match (first_round tr t rb ds) \<noteq> None \<longrightarrow>
                  second_round tr t rb ds (first_round tr t rb ds) = first_round tr t rb ds
                  \<and> match_detections tr t rb ds = first_round tr t rb ds)"
proof -
  let ?hs = "high_conf_detections tr detections"
  from assms(1,2) have hin: "h \<in> set ?hs" by (simp add: high_conf_detections_def)
  from foldl_high_conf_finds [OF hin assms(3-5)]
  have f: "best_match (first_round tr t rb detections) \<noteq> None"
    by (simp add: first_round_def)
  then obtain m where m: "best_match (first_round tr t rb detections) = Some m" by auto
  from foldl_high_conf_member [of rb "tk_class_id t" "high_iou_threshold tr" no_match ?hs m] m
  have min: "m \<in> set ?hs" by (simp add: first_round_def no_match_def)
  then have "m \<in> set detections" "d_confidence m \<ge> high_conf_threshold tr"
    by (simp_all add: high_conf_detections_def)
  moreover from min have "?hs = [h] \<longrightarrow> m = h" by auto
  moreover note later_rounds_skipped [OF f]
  moreover have "\<forall>ds. best_match (first_round tr t rb ds) \<noteq> None \<longrightarrow>
                  second_round tr t rb ds (first_round tr t rb ds) = first_round tr t rb ds
                  \<and> match_detections tr t rb ds = first_round tr t rb ds"
    by (auto simp: later_rounds_skipped second_round_def)
  ultimately show ?thesis using m by simp
qed

lemma high_conf_step_other_class:
  "best_match (high_conf_step rb c thr s d) = Some m \<Longrightarrow> d_class_id m \<noteq> c \<Longrightarrow>
     best_match s = Some m \<or> (m = d \<and> calculate_iou rb (det_box d) > thr * 1.2)"
  by (auto simp: high_conf_step_def Let_def split: if_splits)

lemma foldl_high_conf_other_class:
  "best_match (foldl (high_conf_step rb c thr) s ds) = Some m \<Longrightarrow> d_class_id m \<noteq> c \<Longrightarrow>
     best_match s = Some m \<or> (m \<in> set ds \<and> calculate_iou rb (det_box m) > thr * 1.2)"
proof (induction ds arbitrary: s)
  case Nil
  then show ?case by simp
next
  case (Cons d ds)
  from Cons.IH [of "high_conf_step rb c thr s d"] Cons.prems
  have "best_match (high_conf_step rb c thr s d) = Some m
        \<or> (m \<in> set ds \<and> calculate_iou rb (det_box m) > thr * 1.2)" by simp
  then show ?case using high_conf_step_other_class [of rb c thr s d m] Cons.prems(2) by auto
qed

text \<open>
  When in addition no high-confidence detection of another class clears
  \<open>1.2 * high_iou_threshold\<close>, the match is a high-confidence detection of the class of the
  track whose IoU is at least that of \<open>h\<close>.
\<close>

lemma same_class_match_without_other_class_candidate:
  assumes "h \<in> set detections" and "d_confidence h \<ge> high_conf_threshold tr"
    and "d_class_id h = tk_class_id t"
    and "calculate_iou rb (det_box h) > high_iou_threshold tr"
    and "0 \<le> high_iou_threshold tr"
    and "\<forall>d\<in>set (high_conf_detections tr detections). d_class_id d \<noteq> tk_class_id t \<longrightarrow>
           calculate_iou rb (det_box d) \<le> high_iou_threshold tr * 1.2"
  shows "\<exists>m. best_match (match_detections tr t rb detections) = Some m
           \<and> m \<in> set (high_conf_detections tr detections)
           \<and> d_class_id m = tk_class_id t
           \<and> calculate_iou rb (det_box h) \<le> calculate_iou rb (det_box m)"
proof -
  let ?hs = "high_conf_detections tr detections"
  let ?iou = "\<lambda>d. calculate_iou rb (det_box d)"
  from assms(1,2) have hin: "h \<in> set ?hs" by (simp add: high_conf_detections_def)
  from foldl_high_conf_finds [OF hin assms(3-5)]
  have f: "best_match (first_round tr t rb detections) \<noteq> None"
    by (simp add: first_round_def)
  then obtain m where m: "best_match (first_round tr t rb detections) = Some m" by auto
  from foldl_high_conf_member [of rb "tk_class_id t" "high_iou_threshold tr" no_match ?hs m] m
  have min: "m \<in> set ?hs" by (simp add: first_round_def no_match_def)
  have cls: "d_class_id m = tk_class_id t"
  proof (rule ccontr)
    assume n: "d_class_id m \<noteq> tk_class_id t"
    from foldl_high_conf_other_class [of rb "tk_class_id t" "high_iou_threshold tr" no_match ?hs m]
      m n
    have "?iou m > high_iou_threshold tr * 1.2" by (simp add: first_round_def no_match_def)
    with assms(6) min n show False by fastforce
  qed
  from first_round_same_class_is_first_best [OF m cls] obtain pre post where
    d: "?hs = pre @ m # post"
    and p: "\<forall>d\<in>set pre. d_class_id d = tk_class_id t \<longrightarrow> ?iou d < ?iou m"
    and q: "\<forall>d\<in>set post. d_class_id d = tk_class_id t \<longrightarrow> ?iou d \<le> ?iou m"
    by blast
  from hin d have "h \<in> set pre \<or> h = m \<or> h \<in> set post" by auto
  with p q assms(3) have "?iou h \<le> ?iou m" by fastforce
  with m min cls later_rounds_skipped [OF f] show ?thesis by simp
qed

subsection \<open>The frame driver\<close>

lemma process_frame_uninitialized:
  "\<not> is_initialized a \<Longrightarrow>
     process_frame a fs img frame_name save_annotation save_image = (a, fs, Inr [])"
  by (simp add: process_frame_def)

lemma save_frame_annotation_empty:
  "save_frame_annotation dir fs name [] w h = (fs, Inr False)"
  by (simp add: save_frame_annotation_def)

lemma save_frame_annotation_labels:
  "snd (save_frame_annotation dir fs name res w h) \<noteq> Inr True \<Longrightarrow>
     fst (save_frame_annotation dir fs name res w h) = fs"
  by (simp add: save_frame_annotation_def Let_def split: if_splits)

lemma count_detection_saved:
  "st_saved_annotations (count_detection st d) = st_saved_annotations st"
  by (simp add: count_detection_def)

lemma record_detections_saved:
  "st_saved_annotations (record_detections st ds) = st_saved_annotations st"
proof -
  have "st_saved_annotations (foldl count_detection st' ds) = st_saved_annotations st'" for st'
    by (induction ds arbitrary: st') (simp_all add: count_detection_saved)
  then show ?thesis by (simp add: record_detections_def)
qed

lemma record_tracking_saved:
  "st_saved_annotations (record_tracking st res) = st_saved_annotations st"
  by (simp add: record_tracking_def)

lemma count_image_saved:
  "st_saved_annotations (count_image st frame_name save_image) = st_saved_annotations st"
  by (simp add: count_image_def)

lemma count_annotation_saved:
  "st_saved_annotations (count_annotation st flag)
     = st_saved_annotations st + (if flag then 1 else 0)"
  by (simp add: count_annotation_def)

lemmas saved_simps = record_detections_saved record_tracking_saved count_image_saved
  count_annotation_saved

lemma write_image_labels:
  "label_files (write_image dir fs frame_name save_image) = label_files fs
   \<and> writable (write_image dir fs frame_name save_image) = writable fs"
  by (simp add: write_image_def)

lemma write_annotation_empty:
  "write_annotation dir fs frame_name save_annotation [] img = (fs, Inr False)"
  by (simp add: write_annotation_def save_frame_annotation_def)

lemma process_frame_empty:
  assumes "is_initialized a"
    and "update (tracker a) (detections_of img) (frame_count a) = (tr', Inr [])"
  shows "\<exists>a' fs'. process_frame a fs img frame_name save_annotation save_image = (a', fs', Inr [])
           \<and> tracker a' = tr' \<and> is_initialized a' \<and> label_files fs' = label_files fs
           \<and> writable fs' = writable fs
           \<and> st_saved_annotations (statistics a') = st_saved_annotations (statistics a)"
  using assms
  by (simp add: process_frame_def Let_def write_annotation_empty saved_simps
      write_image_labels)

lemma process_frame_terminated:
  assumes "\<not> is_tracking (tracker a)"
  shows "\<exists>a' fs'. process_frame a fs img frame_name save_annotation save_image = (a', fs', Inr [])
           \<and> tracker a' = tracker a"
proof (cases "is_initialized a")
  case False
  then show ?thesis by (simp add: process_frame_uninitialized)
next
  case True
  from process_frame_empty [OF True update_not_tracking [OF assms]] show ?thesis by blast
qed

lemma process_frames_terminated:
  "\<not> is_tracking (tracker a) \<Longrightarrow>
     snd (snd (process_frames a fs calls)) = replicate (length calls) (Inr [])
     \<and> tracker (fst (process_frames a fs calls)) = tracker a"
proof (induction calls arbitrary: a fs)
  case Nil
  then show ?case by simp
next
  case (Cons c calls)
  obtain img name sa si where c: "c = (img, name, sa, si)" by (cases c) auto
  from process_frame_terminated [OF Cons.prems, of fs img name sa si] obtain a' fs' where
    p: "process_frame a fs img name sa si = (a', fs', Inr [])" and t: "tracker a' = tracker a"
    by blast
  from Cons.prems t have "\<not> is_tracking (tracker a')" by simp
  from Cons.IH [OF this, of fs'] show ?case using p t by (simp add: c Let_def)
qed

lemma reseed_tracks:
  "is_tracking (tracker (fst (initialize_from_manual_annotation a (b # bs))))"
  by (simp add: initialize_from_manual_annotation_def Let_def initialize_target_def)

text \<open>
  Claim C3. On the frame where the counter \<open>disappeared\<close> exceeds \<open>max_disappeared\<close> the
  tracker stops: \<open>update\<close> and \<open>process_frame\<close> return the empty list and \<open>is_tracking\<close> is
  false. Whatever frames follow, every call returns the empty list and \<open>is_tracking\<close> stays
  false; \<open>reset_tracker\<close> followed by a new seed makes it true again.
\<close>

theorem terminated_track_stays_terminated:
  assumes "is_initialized a" and "is_tracking (tracker a)"
    and "target_track (tracker a) = Some t"
    and "best_match (frame_match (tracker a) t (detections_of img)) = None"
    and "tk_disappeared t + 1 > max_disappeared (tracker a)"
  shows "\<exists>a1 fs1. process_frame a fs img frame_name save_annotation save_image = (a1, fs1, Inr [])
           \<and> snd (update (tracker a) (detections_of img) (frame_count a)) = Inr []
           \<and> \<not> is_tracking (tracker a1)
           \<and> (\<forall>calls. snd (snd (process_frames a1 fs1 calls)) = replicate (length calls) (Inr [])
                     \<and> \<not> is_tracking (tracker (fst (process_frames a1 fs1 calls)))
                     \<and> (\<forall>detections frame_id.
                           update (tracker (fst (process_frames a1 fs1 calls))) detections frame_id
                           = (tracker (fst (process_frames a1 fs1 calls)), Inr []))
                     \<and> is_tracking (tracker (fst (initialize_from_manual_annotation
                           (reset_tracker (fst (process_frames a1 fs1 calls))) (b # bs)))))"
proof -
  let ?tr' = "(tracker a)\<lparr> kalman_filter := fst (predict (kalman_filter (tracker a))),
                 is_tracking := False, target_track := None \<rparr>"
  have u: "update (tracker a) (detections_of img) (frame_count a) = (?tr', Inr [])"
    by (rule update_terminates [OF assms(2-5)])
  from process_frame_empty [OF assms(1) u, of fs frame_name save_annotation save_image]
  obtain a1 fs1 where
    p: "process_frame a fs img frame_name save_annotation save_image = (a1, fs1, Inr [])"
    and t: "tracker a1 = ?tr'" by blast
  from t have n: "\<not> is_tracking (tracker a1)" by simp
  have "\<forall>calls. snd (snd (process_frames a1 fs1 calls)) = replicate (length calls) (Inr [])
          \<and> \<not> is_tracking (tracker (fst (process_frames a1 fs1 calls)))
          \<and> (\<forall>detections frame_id.
                 update (tracker (fst (process_frames a1 fs1 calls))) detections frame_id
                 = (tracker (fst (process_frames a1 fs1 calls)), Inr []))
          \<and> is_tracking (tracker (fst (initialize_from_manual_annotation
                           (reset_tracker (fst (process_frames a1 fs1 calls))) (b # bs))))"
    using process_frames_terminated [OF n] n by (simp add: update_not_tracking reseed_tracks)
  with p u n show ?thesis by simp
qed

text \<open>
  Claim C2, as the code has it. \<open>process_frame\<close> on an annotator that is not initialised
  does not raise: it returns the empty list and changes neither the annotator nor the
  files.
\<close>

theorem process_frame_before_initialization:
  "\<not> is_initialized a \<Longrightarrow>
     process_frame a fs img frame_name save_annotation save_image = (a, fs, Inr [])"
  by (simp add: process_frame_def)

text \<open>
  Claim C6, as the code has it. An empty list seeds nothing and returns the empty list,
  without raising. Otherwise the tracker is seeded from the first box of the list,
  whatever its geometry, and the other boxes are not looked at.
\<close>

theorem seeded_from_first_box:
  "initialize_from_manual_annotation a [] = (a, [])
   \<and> (\<exists>a' r. initialize_from_manual_annotation a (b # bs) = (a', [r])
         \<and> is_initialized a' \<and> is_tracking (tracker a')
         \<and> (\<exists>t. target_track (tracker a') = Some t
               \<and> tk_box t = (m_x1 b, m_y1 b, m_x2 b, m_y2 b)
               \<and> tk_class_id t = m_class_id b \<and> tk_class_name t = m_class_name b)
         \<and> get_current_bbox (kalman_filter (tracker a')) = Some (m_x1 b, m_y1 b, m_x2 b, m_y2 b)
         \<and> tracking_bbox r = (m_x1 b, m_y1 b, m_x2 b, m_y2 b))
   \<and> initialize_from_manual_annotation a (b # bs) = initialize_from_manual_annotation a [b]"
  by (simp add: initialize_from_manual_annotation_def Let_def initialize_target_def
      tracking_bbox_def get_current_bbox_def initialize_initialized state_bbox_initialize)

lemma process_frame_error:
  assumes "is_initialized a"
    and "update (tracker a) (detections_of img) (frame_count a) = (tr', Inl e)"
  shows "\<exists>a'. process_frame a fs img frame_name save_annotation save_image = (a', fs, Inl e)
           \<and> st_saved_annotations (statistics a') = st_saved_annotations (statistics a)"
  using assms by (simp add: process_frame_def Let_def saved_simps)

lemma process_frame_saved:
  assumes "is_initialized a"
    and "update (tracker a) (detections_of img) (frame_count a) = (tr', Inr res)"
    and "write_annotation (output_dir a) (write_image (output_dir a) fs frame_name save_image)
           frame_name save_annotation res img = (fs2, Inr flag)"
  shows "\<exists>a'. process_frame a fs img frame_name save_annotation save_image = (a', fs2, Inr res)
           \<and> st_saved_annotations (statistics a')
               = st_saved_annotations (statistics a) + (if flag then 1 else 0)"
  using assms by (simp add: process_frame_def Let_def saved_simps)

lemma process_frame_save_fails:
  assumes "is_initialized a"
    and "update (tracker a) (detections_of img) (frame_count a) = (tr', Inr res)"
    and "write_annotation (output_dir a) (write_image (output_dir a) fs frame_name save_image)
           frame_name save_annotation res img = (fs2, Inl e)"
  shows "\<exists>a'. process_frame a fs img frame_name save_annotation save_image = (a', fs2, Inl e)
           \<and> st_saved_annotations (statistics a') = st_saved_annotations (statistics a)"
  using assms by (simp add: process_frame_def Let_def saved_simps)

lemma write_annotation_cases:
  "write_annotation dir fs frame_name save_annotation res img = (fs2, out) \<Longrightarrow>
     (out = Inr True \<and> save_annotation \<and> frame_name = Some (given_name frame_name) \<and> res \<noteq> []
        \<and> save_frame_annotation dir fs (given_name frame_name) res
             (image_width img) (image_height img) = (fs2, Inr True))
   \<or> (out \<noteq> Inr True \<and> fs2 = fs \<and> (res = [] \<longrightarrow> out = Inr False))"
  by (auto simp: write_annotation_def save_frame_annotation_def Let_def given_name_def
      split: if_splits option.splits)

text \<open>
  Claim C7. A call of \<open>process_frame\<close> that returns the empty list leaves the label files
  as they were, whatever \<open>save_annotation\<close> is; and the counter \<open>saved_annotations\<close> changes
  only by one step up, only when an annotation was requested for a named frame and
  \<open>save_frame_annotation\<close> wrote the file of a non-empty result and returned \<open>True\<close>.
\<close>

theorem annotation_written_only_for_results:
  assumes "process_frame a fs img frame_name save_annotation save_image = (a', fs', r)"
  shows "(r = Inr [] \<longrightarrow> label_files fs' = label_files fs)
       \<and> (st_saved_annotations (statistics a') \<noteq> st_saved_annotations (statistics a) \<longrightarrow>
            st_saved_annotations (statistics a') = st_saved_annotations (statistics a) + 1
            \<and> save_annotation
            \<and> (\<exists>name res fs1. frame_name = Some name \<and> r = Inr res \<and> res \<noteq> []
                  \<and> save_frame_annotation (output_dir a) fs1 name res
                        (image_width img) (image_height img) = (fs', Inr True)))"
proof (cases "is_initialized a")
  case False
  with assms show ?thesis by (simp add: process_frame_def)
next
  case True
  obtain tr' out where u: "update (tracker a) (detections_of img) (frame_count a) = (tr', out)"
    by (cases "update (tracker a) (detections_of img) (frame_count a)") auto
  show ?thesis
  proof (cases out)
    case (Inl e)
    from process_frame_error [OF True u [unfolded Inl], of fs frame_name save_annotation save_image]
      assms show ?thesis by auto
  next
    case (Inr res)
    let ?fs1 = "write_image (output_dir a) fs frame_name save_image"
    obtain fs2 sv where w: "write_annotation (output_dir a) ?fs1 frame_name save_annotation res img
        = (fs2, sv)"
      by (cases "write_annotation (output_dir a) ?fs1 frame_name save_annotation res img") auto
    note c = write_annotation_cases [OF w]
    show ?thesis
    proof (cases sv)
      case e: (Inl e)
      from process_frame_save_fails [OF True u [unfolded Inr] w [unfolded e]] assms
      show ?thesis by auto
    next
      case f: (Inr flag)
      from process_frame_saved [OF True u [unfolded Inr] w [unfolded f]] assms
      obtain r: "r = Inr res" and fs': "fs' = fs2"
        and n: "st_saved_annotations (statistics a')
                 = st_saved_annotations (statistics a) + (if flag then 1 else 0)"
        by auto
      show ?thesis
      proof (cases flag)
        case True
        with c f have "save_annotation" "frame_name = Some (given_name frame_name)" "res \<noteq> []"
          "save_frame_annotation (output_dir a) ?fs1 (given_name frame_name) res
             (image_width img) (image_height img) = (fs2, Inr True)"
          by auto
        with r fs' n True show ?thesis by auto
      next
        case False
        with c f have "fs2 = ?fs1" by auto
        with r fs' n False show ?thesis by (simp add: write_image_labels)
      qed
    qed
  qed
qed

text \<open>
  Every operation of the annotator keeps the invariant of its tracker, and on such an
  annotator the inversion inside the Kalman update never fails.
\<close>

lemma annotator_init_ok: "tracker_ok (tracker (VideoAutoAnnotator_init dir h l m))"
  by (simp add: VideoAutoAnnotator_init_def tracker_ok_init)

lemma initialize_from_manual_annotation_ok:
  "tracker_ok (tracker a) \<Longrightarrow>
     tracker_ok (tracker (fst (initialize_from_manual_annotation a manual_boxes)))"
  by (cases manual_boxes)
     (simp_all add: initialize_from_manual_annotation_def Let_def tracker_ok_initialize_target)

lemma reset_tracker_ok: "tracker_ok (tracker (reset_tracker a))"
  by (simp add: reset_tracker_def tracker_ok_reset)

lemma process_frame_ok:
  assumes "tracker_ok (tracker a)"
  shows "tracker_ok (tracker (fst (process_frame a fs img frame_name save_annotation save_image)))
       \<and> snd (snd (process_frame a fs img frame_name save_annotation save_image)) \<noteq> Inl LinAlgError"
proof (cases "is_initialized a")
  case False
  then show ?thesis using assms by (simp add: process_frame_def)
next
  case True
  from update_total [OF assms, of "detections_of img" "frame_count a"]
  obtain tr' res where u: "update (tracker a) (detections_of img) (frame_count a) = (tr', Inr res)"
    and ok: "tracker_ok tr'" by blast
  have "snd (write_annotation dir fs1 frame_name save_annotation res img) \<noteq> Inl LinAlgError"
    for dir fs1
    by (simp add: write_annotation_def save_frame_annotation_def Let_def)
  then show ?thesis
    using True u ok
    by (auto simp: process_frame_def Let_def split: sum.splits)
qed

subsection \<open>The scenario\<close>

lemmas tracker_defs = cup_tracker_def initialize_target_def SingleObjectTracker_default_def
  SingleObjectTracker_init_def cup_seed_def cup_track_def

lemma cup_tracker_track: "target_track cup_tracker = Some cup_track"
  by (simp add: tracker_defs Let_def)

lemma cup_tracker_tracking: "is_tracking cup_tracker"
  by (simp add: tracker_defs Let_def)

lemma cup_tracker_ok: "tracker_ok cup_tracker"
  unfolding cup_tracker_def SingleObjectTracker_default_def
  by (rule tracker_ok_initialize_target [OF tracker_ok_init])

lemma cup_tracker_filter:
  "kalman_filter cup_tracker = initialize KalmanFilter_init (100, 100, 200, 200)"
  by (simp add: tracker_defs Let_def)

lemma cup_predicted_filter:
  "fst (predict (initialize KalmanFilter_init (100, 100, 200, 200))) =
     \<lparr> kf_dt = 1, kf_x = [[150], [150], [100], [100], [0], [0], [0], [0]],
       kf_F = F_matrix, kf_H = H_matrix, kf_Q = Q_matrix, kf_R = R_matrix,
       kf_P = banded (20001 / 10) (20001 / 10) (20001 / 10) (20001 / 10) 1000 1000 1000 1000
                (1000001 / 1000) (1000001 / 1000) (1000001 / 1000) (1000001 / 1000),
       kf_is_initialized = True \<rparr>"
  by (simp add: KalmanFilter_init_def initialize_def predict_def Let_def
        F_matrix_def Q_matrix_value smul_def banded_def dot_def transpose_m_def column_def
        inner_def ncols_def madd_def upt8 eye_def)

lemma cup_predicted_bbox: "predicted_bbox cup_tracker cup_track = (100, 100, 200, 200)"
  by (simp add: predicted_bbox_def cup_tracker_filter predict_initialized initialize_initialized
      cup_predicted_filter state_bbox_def)

lemma iou_shorter: "calculate_iou (100, 100, 200, 200) (100, 100, 200, 180) = 4 / 5"
  by (simp add: calculate_iou_def Let_def)

lemma iou_same: "calculate_iou (100, 100, 200, 200) (100, 100, 200, 200) = 1"
  by (simp add: calculate_iou_def Let_def)

lemmas round_defs = frame_match_def match_detections_def first_round_def second_round_def
  third_round_def high_conf_detections_def low_conf_detections_def high_conf_step_def
  low_conf_step_def recovery_step_def det_box_def no_match_def Detection_def

lemma cup_no_detections: "best_match (frame_match cup_tracker cup_track []) = None"
  by (simp add: round_defs Let_def)

text \<open>
  An instance of claim C4: the first frame after the seed, without detections. The box is
  the seeded box and the confidence is 0.95.
\<close>

theorem unmatched_frame_emits_prediction_witness:
  "tracker_ok cup_tracker \<and> is_tracking cup_tracker \<and> target_track cup_tracker = Some cup_track
   \<and> best_match (frame_match cup_tracker cup_track []) = None
   \<and> tk_disappeared cup_track + 1 \<le> max_disappeared cup_tracker
   \<and> (\<exists>tr' r t'. update cup_tracker [] 1 = (tr', Inr [r]) \<and> target_track tr' = Some t'
         \<and> tk_disappeared t' = 1 \<and> tracking_bbox r = (100, 100, 200, 200)
         \<and> t_confidence r = 0.95)"
proof -
  have le: "tk_disappeared cup_track + 1 \<le> max_disappeared cup_tracker"
    by (simp add: tracker_defs Let_def)
  from unmatched_frame_emits_prediction
    [OF cup_tracker_ok cup_tracker_tracking cup_tracker_track cup_no_detections le, of 1]
  obtain tr' r t' where u: "update cup_tracker [] 1 = (tr', Inr [r])"
    and t: "target_track tr' = Some t'"
    and d: "tk_disappeared t' = tk_disappeared cup_track + 1"
    and b: "snd (predict (kalman_filter cup_tracker)) = Some (tracking_bbox r)"
    and c: "t_confidence r = max 0.1 (tk_confidence cup_track - 0.05 * real_of_int (tk_disappeared t'))"
    by blast
  from b have "tracking_bbox r = (100, 100, 200, 200)"
    by (simp add: cup_tracker_filter predict_initialized initialize_initialized
        cup_predicted_filter state_bbox_def)
  moreover from d have "tk_disappeared t' = 1" by (simp add: cup_track_def)
  moreover from c d have "t_confidence r = 0.95" by (simp add: cup_track_def)
  ultimately show ?thesis
    using cup_tracker_ok cup_tracker_tracking cup_tracker_track cup_no_detections le u t
    by blast
qed

lemma cup_shorter_match:
  "best_match (frame_match cup_tracker cup_track [Detection 100 100 200 180 0.9 41 ''cup''])
     = Some (Detection 100 100 200 180 0.9 41 ''cup'')"
  unfolding frame_match_def cup_predicted_bbox
  by (simp add: round_defs iou_shorter Let_def tracker_defs)

lemma cup_updated_state:
  "\<exists>kf2. kf_update (fst (predict (initialize KalmanFilter_init (100, 100, 200, 200))))
            (100, 100, 200, 180) = Inr kf2
         \<and> state_bbox (kf_x kf2) = (100, 100, 200, 3620180 / 20101)"
  unfolding cup_predicted_filter
  by (simp add: kf_update_def Let_def state_bbox_def
      H_matrix_def R_matrix_value banded_def dot_def transpose_m_def column_def inner_def
      ncols_def madd_def msub_def upt8 upt4 linalg_inv_def eye_def find_pivot_def
      swap_rows_def scale_row_def eliminate_def upt_rec)

lemma cup_updated_box:
  assumes "kf_update (fst (predict (initialize KalmanFilter_init (100, 100, 200, 200))))
             (100, 100, 200, 180) = Inr kf2"
  shows "state_bbox (kf_x kf2) = (100, 100, 200, 3620180 / 20101)"
  using assms cup_updated_state by auto

text \<open>
  An instance of claim C10: the first frame after the seed, with a detection whose lower
  edge is at 180 instead of 200. The track stores the detection; the returned box has its
  lower edge at \<open>3620180/20101\<close>, a little below 180.1.
\<close>

theorem matched_frame_emits_filter_estimate_witness:
  "tracker_ok cup_tracker \<and> is_tracking cup_tracker \<and> target_track cup_tracker = Some cup_track
   \<and> best_match (frame_match cup_tracker cup_track [Detection 100 100 200 180 0.9 41 ''cup''])
        = Some (Detection 100 100 200 180 0.9 41 ''cup'')
   \<and> (\<exists>tr' r t'. update cup_tracker [Detection 100 100 200 180 0.9 41 ''cup''] 1 = (tr', Inr [r])
         \<and> target_track tr' = Some t'
         \<and> tracking_bbox r = (100, 100, 200, 3620180 / 20101)
         \<and> tk_box t' = (100, 100, 200, 180)
         \<and> t_confidence r = 0.9 \<and> tk_disappeared t' = 0)"
proof -
  let ?d = "Detection 100 100 200 180 0.9 41 ''cup''"
  from matched_frame_emits_filter_estimate
    [OF cup_tracker_ok cup_tracker_tracking cup_tracker_track cup_shorter_match, of 1]
  obtain tr' r t' where u: "update cup_tracker [?d] 1 = (tr', Inr [r])"
    and k: "kf_update (fst (predict (kalman_filter cup_tracker))) (det_box ?d)
              = Inr (kalman_filter tr')"
    and g: "get_current_bbox (kalman_filter tr') = Some (tracking_bbox r)"
    and c: "t_confidence r = d_confidence ?d"
    and t: "target_track tr' = Some t'" and b: "tk_box t' = det_box ?d"
    and z: "tk_disappeared t' = 0"
    by blast
  from k have "state_bbox (kf_x (kalman_filter tr')) = (100, 100, 200, 3620180 / 20101)"
    by (intro cup_updated_box) (simp add: cup_tracker_filter det_box_def Detection_def)
  with g have "tracking_bbox r = (100, 100, 200, 3620180 / 20101)"
    by (simp add: get_current_bbox_def split: if_splits)
  moreover from b have "tk_box t' = (100, 100, 200, 180)" by (simp add: det_box_def Detection_def)
  moreover from c have "t_confidence r = 0.9" by (simp add: Detection_def)
  ultimately show ?thesis
    using cup_tracker_ok cup_tracker_tracking cup_tracker_track cup_shorter_match u t z
    by blast
qed

text \<open>
  An instance: a low-confidence detection that coincides with the reference box (IoU 1)
  loses against a high-confidence detection of IoU 4/5.
\<close>

lemma high_confidence_beats_low_confidence_instance:
  "Detection 100 100 200 180 0.9 41 ''cup''
     \<in> set [Detection 100 100 200 200 0.4 41 ''cup'', Detection 100 100 200 180 0.9 41 ''cup'']
   \<and> d_confidence (Detection 100 100 200 180 0.9 41 ''cup'') \<ge> high_conf_threshold cup_tracker
   \<and> d_class_id (Detection 100 100 200 180 0.9 41 ''cup'') = tk_class_id cup_track
   \<and> calculate_iou (100, 100, 200, 200) (det_box (Detection 100 100 200 180 0.9 41 ''cup''))
        > high_iou_threshold cup_tracker
   \<and> 0 \<le> high_iou_threshold cup_tracker
   \<and> d_confidence (Detection 100 100 200 200 0.4 41 ''cup'') < high_conf_threshold cup_tracker
   \<and> calculate_iou (100, 100, 200, 200) (det_box (Detection 100 100 200 200 0.4 41 ''cup''))
        > calculate_iou (100, 100, 200, 200) (det_box (Detection 100 100 200 180 0.9 41 ''cup''))
   \<and> best_match (match_detections cup_tracker cup_track (100, 100, 200, 200)
        [Detection 100 100 200 200 0.4 41 ''cup'', Detection 100 100 200 180 0.9 41 ''cup''])
        = Some (Detection 100 100 200 180 0.9 41 ''cup'')"
proof -
  let ?h = "Detection 100 100 200 180 0.9 41 ''cup''"
  let ?l = "Detection 100 100 200 200 0.4 41 ''cup''"
  have 1: "?h \<in> set [?l, ?h]" by simp
  have 2: "d_confidence ?h \<ge> high_conf_threshold cup_tracker"
    by (simp add: Detection_def tracker_defs Let_def)
  have 3: "d_class_id ?h = tk_class_id cup_track" by (simp add: Detection_def cup_track_def)
  have 4: "calculate_iou (100, 100, 200, 200) (det_box ?h) > high_iou_threshold cup_tracker"
    by (simp add: Detection_def det_box_def iou_shorter tracker_defs Let_def)
  have 5: "0 \<le> high_iou_threshold cup_tracker" by (simp add: tracker_defs Let_def)
  have 6: "d_confidence ?l < high_conf_threshold cup_tracker"
    by (simp add: Detection_def tracker_defs Let_def)
  have 7: "calculate_iou (100, 100, 200, 200) (det_box ?l)
            > calculate_iou (100, 100, 200, 200) (det_box ?h)"
    by (simp add: Detection_def det_box_def iou_shorter iou_same)
  have 8: "high_conf_detections cup_tracker [?l, ?h] = [?h]"
    by (simp add: high_conf_detections_def Detection_def tracker_defs Let_def)
  from high_confidence_beats_low_confidence [OF 1 2 3 4 5] 8
  have "best_match (match_detections cup_tracker cup_track (100, 100, 200, 200) [?l, ?h]) = Some ?h"
    by blast
  with 1 2 3 4 5 6 7 show ?thesis by blast
qed

text \<open>
  Claim C1 on the code. The first loop takes the detections in the order of the detector:
  a detection of another class that comes first and clears \<open>1.2 * high_iou_threshold\<close> is
  taken, and a later detection of the class of the track replaces it only with a larger
  IoU. Here the detection of class \<open>person\<close> is kept although the detection of class
  \<open>cup\<close> is a high-confidence detection of the class of the track with IoU 4/5, above
  the threshold 0.3.
\<close>

theorem other_class_taken_before_same_class:
  "best_match (frame_match cup_tracker cup_track
       [Detection 100 100 200 200 0.9 0 ''person'', Detection 100 100 200 180 0.9 41 ''cup''])
     = Some (Detection 100 100 200 200 0.9 0 ''person'')
   \<and> match_source (frame_match cup_tracker cup_track
       [Detection 100 100 200 200 0.9 0 ''person'', Detection 100 100 200 180 0.9 41 ''cup''])
     = ''high_conf_diff_class''
   \<and> d_class_id (Detection 100 100 200 200 0.9 0 ''person'') \<noteq> tk_class_id cup_track
   \<and> d_class_id (Detection 100 100 200 180 0.9 41 ''cup'') = tk_class_id cup_track
   \<and> d_confidence (Detection 100 100 200 180 0.9 41 ''cup'') \<ge> high_conf_threshold cup_tracker
   \<and> calculate_iou (predicted_bbox cup_tracker cup_track)
        (det_box (Detection 100 100 200 180 0.9 41 ''cup'')) > high_iou_threshold cup_tracker"
  unfolding frame_match_def cup_predicted_bbox
  by (simp add: round_defs iou_shorter iou_same Let_def tracker_defs)

text \<open>
  With the two detections in the other order the detection of class \<open>cup\<close> is taken; and
  of two detections of another class the first that clears the bar is taken, not the one
  with the larger IoU.
\<close>

lemma same_class_taken_when_first:
  "best_match (frame_match cup_tracker cup_track
       [Detection 100 100 200 180 0.9 41 ''cup'', Detection 100 100 200 200 0.9 0 ''person''])
     = Some (Detection 100 100 200 180 0.9 41 ''cup'')"
  unfolding frame_match_def cup_predicted_bbox
  by (simp add: round_defs iou_shorter iou_same Let_def tracker_defs)

lemma iou_half: "calculate_iou (100, 100, 200, 200) (100, 100, 200, 150) = 1 / 2"
  by (simp add: calculate_iou_def Let_def)

lemma first_other_class_taken_not_best:
  "best_match (frame_match cup_tracker cup_track
       [Detection 100 100 200 150 0.9 0 ''person'', Detection 100 100 200 200 0.9 0 ''person''])
     = Some (Detection 100 100 200 150 0.9 0 ''person'')"
  unfolding frame_match_def cup_predicted_bbox
  by (simp add: round_defs iou_half iou_same Let_def tracker_defs)

lemma iou_longer: "calculate_iou (100, 100, 200, 200) (100, 100, 200, 190) = 9 / 10"
  by (simp add: calculate_iou_def Let_def)

text \<open>
  Claim C5 on the code. The list holds a high-confidence detection of class \<open>cup\<close> with
  IoU 4/5, above the threshold 0.3, and a low-confidence detection of class \<open>cup\<close> with
  the larger IoU 9/10. The low-confidence detection is not taken, but neither is the
  high-confidence one of the class of the track: a detection of class \<open>person\<close> that the
  detector lists first is kept by the first loop, as in claim C1.
\<close>

theorem other_class_taken_before_high_confidence_same_class:
  "best_match (frame_match cup_tracker cup_track
       [Detection 100 100 200 200 0.9 0 ''person'', Detection 100 100 200 180 0.9 41 ''cup'',
        Detection 100 100 200 190 0.4 41 ''cup''])
     = Some (Detection 100 100 200 200 0.9 0 ''person'')
   \<and> d_class_id (Detection 100 100 200 200 0.9 0 ''person'') \<noteq> tk_class_id cup_track
   \<and> d_class_id (Detection 100 100 200 180 0.9 41 ''cup'') = tk_class_id cup_track
   \<and> d_confidence (Detection 100 100 200 180 0.9 41 ''cup'') \<ge> high_conf_threshold cup_tracker
   \<and> calculate_iou (predicted_bbox cup_tracker cup_track)
        (det_box (Detection 100 100 200 180 0.9 41 ''cup'')) > high_iou_threshold cup_tracker
   \<and> d_class_id (Detection 100 100 200 190 0.4 41 ''cup'') = tk_class_id cup_track
   \<and> low_conf_threshold cup_tracker \<le> d_confidence (Detection 100 100 200 190 0.4 41 ''cup'')
   \<and> d_confidence (Detection 100 100 200 190 0.4 41 ''cup'') < high_conf_threshold cup_tracker
   \<and> calculate_iou (predicted_bbox cup_tracker cup_track)
        (det_box (Detection 100 100 200 190 0.4 41 ''cup''))
      > calculate_iou (predicted_bbox cup_tracker cup_track)
        (det_box (Detection 100 100 200 180 0.9 41 ''cup''))"
  unfolding frame_match_def cup_predicted_bbox
  by (simp add: round_defs iou_shorter iou_same iou_longer Let_def tracker_defs)

text \<open>Without the detection of the other class the high-confidence one is taken.\<close>

lemma same_class_high_confidence_taken_without_other_class:
  "best_match (frame_match cup_tracker cup_track
       [Detection 100 100 200 180 0.9 41 ''cup'', Detection 100 100 200 190 0.4 41 ''cup''])
     = Some (Detection 100 100 200 180 0.9 41 ''cup'')"
  unfolding frame_match_def cup_predicted_bbox
  by (simp add: round_defs iou_shorter iou_longer Let_def tracker_defs)

lemmas annotator_defs = VideoAutoAnnotator_default_def VideoAutoAnnotator_init_def

text \<open>An instance: a new annotator, asked to save both the image and the annotation.\<close>

theorem process_frame_before_initialization_witness:
  "\<not> is_initialized (VideoAutoAnnotator_default ''out'')
   \<and> process_frame (VideoAutoAnnotator_default ''out'') empty_disk blank_frame
        (Some ''frame_000001'') True True
      = (VideoAutoAnnotator_default ''out'', empty_disk, Inr [])"
proof -
  have n: "\<not> is_initialized (VideoAutoAnnotator_default ''out'')"
    by (simp add: annotator_defs)
  from process_frame_before_initialization [OF n] n show ?thesis by simp
qed

text \<open>
  Claim C2 as stated fails: the same call on a new annotator ends without an error.
\<close>

theorem process_frame_before_initialization_does_not_raise:
  "\<not> is_initialized (VideoAutoAnnotator_default ''out'')
   \<and> \<not> isl (snd (snd (process_frame (VideoAutoAnnotator_default ''out'') empty_disk blank_frame
                        (Some ''frame_000001'') True True)))"
  by (simp add: annotator_defs process_frame_def)

text \<open>
  Claim C6 as stated fails: with an inverted box before a valid one the track is seeded
  from the inverted box; a list with the inverted box alone seeds a track as well, and the
  empty list returns without an error.
\<close>

theorem seeded_from_invalid_first_box:
  "spec_first_valid_box [inverted_seed, cup_seed] = Some cup_seed
   \<and> map_option tk_box (target_track (tracker (fst (initialize_from_manual_annotation
         (VideoAutoAnnotator_default ''out'') [inverted_seed, cup_seed]))))
       = Some (200, 200, 100, 100)
   \<and> spec_first_valid_box [inverted_seed] = None
   \<and> is_tracking (tracker (fst (initialize_from_manual_annotation
         (VideoAutoAnnotator_default ''out'') [inverted_seed])))
   \<and> initialize_from_manual_annotation (VideoAutoAnnotator_default ''out'') []
       = (VideoAutoAnnotator_default ''out'', [])"
  by (simp add: spec_first_valid_box_def inverted_seed_def cup_seed_def
      initialize_from_manual_annotation_def initialize_target_def Let_def)

lemma no_detections_no_match: "best_match (frame_match tr t []) = None"
  by (simp add: round_defs Let_def)

lemma process_frame_tracker:
  assumes "is_initialized a"
    and "update (tracker a) (detections_of img) (frame_count a) = (tr', Inr res)"
    and "\<not> save_annotation"
  shows "\<exists>a'. process_frame a fs img frame_name save_annotation save_image
                = (a', write_image (output_dir a) fs frame_name save_image, Inr res)
           \<and> tracker a' = tr' \<and> is_initialized a'"
  using assms by (simp add: process_frame_def Let_def write_annotation_def)

lemma unmatched_frames_count:
  assumes "is_initialized a" and "is_tracking (tracker a)"
    and "target_track (tracker a) = Some t"
    and "tk_disappeared t + int n \<le> max_disappeared (tracker a)"
  shows "is_initialized (fst (process_frames a fs (replicate n blank_call)))
       \<and> is_tracking (tracker (fst (process_frames a fs (replicate n blank_call))))
       \<and> max_disappeared (tracker (fst (process_frames a fs (replicate n blank_call))))
           = max_disappeared (tracker a)
       \<and> map_option tk_disappeared
           (target_track (tracker (fst (process_frames a fs (replicate n blank_call)))))
           = Some (tk_disappeared t + int n)"
  using assms
proof (induction n arbitrary: a fs t)
  case 0
  then show ?case by simp
next
  case (Suc n)
  let ?t' = "t\<lparr> tk_disappeared := tk_disappeared t + 1, tk_state := ''lost'' \<rparr>"
  from Suc.prems(4) have le: "tk_disappeared t + 1 \<le> max_disappeared (tracker a)" by simp
  have nm: "best_match (frame_match (tracker a) t (detections_of blank_frame)) = None"
    by (simp add: blank_frame_def no_detections_no_match)
  note u = update_lost [OF Suc.prems(2,3) nm le, of "frame_count a"]
  from process_frame_tracker [OF Suc.prems(1) u, of False fs None False]
  obtain a' where p: "process_frame a fs blank_frame None False False
      = (a', write_image (output_dir a) fs None False, Inr [\<lparr> t_track_id = track_id (tracker a),
             t_x1 = fst (predicted_bbox (tracker a) t),
             t_y1 = fst (snd (predicted_bbox (tracker a) t)),
             t_x2 = fst (snd (snd (predicted_bbox (tracker a) t))),
             t_y2 = snd (snd (snd (predicted_bbox (tracker a) t))),
             t_confidence = max 0.1 (tk_confidence t - 0.05 * real_of_int (tk_disappeared t + 1)),
             t_class_id = tk_class_id t,
             t_class_name = tk_class_name t,
             t_frame_id = frame_count a \<rparr>])"
    and tr: "tracker a' = (tracker a)\<lparr> kalman_filter := fst (predict (kalman_filter (tracker a))),
          target_track := Some ?t' \<rparr>"
    and ini: "is_initialized a'"
    by blast
  have 1: "is_tracking (tracker a')" using tr Suc.prems(2) by simp
  have 2: "target_track (tracker a') = Some ?t'" using tr by simp
  have 3: "tk_disappeared ?t' + int n \<le> max_disappeared (tracker a')"
    using tr Suc.prems(4) by simp
  from Suc.IH [OF ini 1 2 3, of "write_image (output_dir a) fs None False"] tr
  show ?case by (auto simp: blank_call_def p Let_def add.assoc)
qed

lemma cup_annotator_tracker: "tracker cup_annotator = cup_tracker"
  by (simp add: cup_annotator_def initialize_from_manual_annotation_def Let_def
      VideoAutoAnnotator_init_def cup_tracker_def SingleObjectTracker_default_def)

lemma cup_annotator_initialized: "is_initialized cup_annotator"
  by (simp add: cup_annotator_def initialize_from_manual_annotation_def Let_def)

lemma lost_cup_annotator_state:
  "is_initialized lost_cup_annotator \<and> is_tracking (tracker lost_cup_annotator)
   \<and> max_disappeared (tracker lost_cup_annotator) = 30
   \<and> map_option tk_disappeared (target_track (tracker lost_cup_annotator)) = Some 30"
proof -
  have "tk_disappeared cup_track + int 30 \<le> max_disappeared (tracker cup_annotator)"
    by (simp add: cup_annotator_tracker tracker_defs Let_def)
  from unmatched_frames_count [OF cup_annotator_initialized _ _ this, of empty_disk]
  show ?thesis
    by (simp add: lost_cup_annotator_def cup_annotator_tracker cup_tracker_tracking
        cup_tracker_track) (simp add: tracker_defs Let_def)
qed

text \<open>
  An instance of claim C3 with the default \<open>max_disappeared = 30\<close>: after 30 frames without
  a detection the counter is 30; the next such frame ends the tracking, and two later
  frames that show the seeded box again return nothing.
\<close>

theorem terminated_track_stays_terminated_witness:
  "is_initialized lost_cup_annotator \<and> is_tracking (tracker lost_cup_annotator)
   \<and> map_option tk_disappeared (target_track (tracker lost_cup_annotator)) = Some 30
   \<and> max_disappeared (tracker lost_cup_annotator) = 30
   \<and> (\<exists>a1 fs1. process_frame lost_cup_annotator empty_disk blank_frame None False False
                  = (a1, fs1, Inr [])
         \<and> \<not> is_tracking (tracker a1)
         \<and> snd (snd (process_frames a1 fs1
               [(cup_frame, Some ''frame_000001'', True, True), (cup_frame, None, False, False)]))
             = [Inr [], Inr []]
         \<and> \<not> is_tracking (tracker (fst (process_frames a1 fs1
               [(cup_frame, Some ''frame_000001'', True, True), (cup_frame, None, False, False)])))
         \<and> is_tracking (tracker (fst (initialize_from_manual_annotation (reset_tracker a1) [cup_seed]))))"
proof -
  note s = lost_cup_annotator_state
  from s obtain t where t: "target_track (tracker lost_cup_annotator) = Some t"
    and d: "tk_disappeared t = 30" by auto
  from s d have gt: "tk_disappeared t + 1 > max_disappeared (tracker lost_cup_annotator)" by simp
  have nm: "best_match (frame_match (tracker lost_cup_annotator) t (detections_of blank_frame)) = None"
    by (simp add: blank_frame_def no_detections_no_match)
  from s have i: "is_initialized lost_cup_annotator" and k: "is_tracking (tracker lost_cup_annotator)"
    by simp_all
  from terminated_track_stays_terminated [OF i k t nm gt, of empty_disk None False False cup_seed "[]"]
  obtain a1 fs1 where p: "process_frame lost_cup_annotator empty_disk blank_frame None False False
                  = (a1, fs1, Inr [])"
    and n: "\<not> is_tracking (tracker a1)"
    and r: "\<And>calls. snd (snd (process_frames a1 fs1 calls)) = replicate (length calls) (Inr [])
                     \<and> \<not> is_tracking (tracker (fst (process_frames a1 fs1 calls)))
                     \<and> is_tracking (tracker (fst (initialize_from_manual_annotation
                           (reset_tracker (fst (process_frames a1 fs1 calls))) [cup_seed])))"
    by blast
  from r [of "[(cup_frame, Some ''frame_000001'', True, True), (cup_frame, None, False, False)]"]
    r [of "[]"]
  have "snd (snd (process_frames a1 fs1
               [(cup_frame, Some ''frame_000001'', True, True), (cup_frame, None, False, False)]))
             = [Inr [], Inr []]"
    and "\<not> is_tracking (tracker (fst (process_frames a1 fs1
               [(cup_frame, Some ''frame_000001'', True, True), (cup_frame, None, False, False)])))"
    and "is_tracking (tracker (fst (initialize_from_manual_annotation (reset_tracker a1) [cup_seed])))"
    by simp_all
  with s p n show ?thesis by blast
qed

text \<open>
  An instance of claim C7: the first frame after the seed, with the annotation requested.
  One label file is written and the counter goes from 0 to 1.
\<close>

lemma label_path: "path_join (path_join ''out'' ''labels'') (''frame_000001'' @ ''.txt'')
    = ''out/labels/frame_000001.txt''"
  by (simp add: path_join_def)

theorem annotation_written_only_for_results_witness:
  "\<exists>a' fs' r. process_frame cup_annotator empty_disk cup_frame (Some ''frame_000001'') True False
                 = (a', fs', r)
       \<and> (r = Inr [] \<longrightarrow> label_files fs' = label_files empty_disk)
       \<and> st_saved_annotations (statistics cup_annotator) = 0
       \<and> st_saved_annotations (statistics a') = 1
       \<and> (\<exists>res fs1. r = Inr res \<and> res \<noteq> []
              \<and> save_frame_annotation (output_dir cup_annotator) fs1 ''frame_000001'' res
                    (image_width cup_frame) (image_height cup_frame) = (fs', Inr True))
       \<and> dom (label_files fs') = {''out/labels/frame_000001.txt''}"
proof -
  let ?d = "Detection 100 100 200 200 0.9 41 ''cup''"
  obtain a' fs' r where p: "process_frame cup_annotator empty_disk cup_frame
      (Some ''frame_000001'') True False = (a', fs', r)"
    by (cases "process_frame cup_annotator empty_disk cup_frame (Some ''frame_000001'') True False")
       auto
  note c = annotation_written_only_for_results [OF p]
  have m: "best_match (frame_match cup_tracker cup_track (detections_of cup_frame)) = Some ?d"
    unfolding frame_match_def cup_predicted_bbox
    by (simp add: cup_frame_def round_defs iou_same Let_def tracker_defs)
  from kf_update_total [OF kf_inv_predict, of "kalman_filter cup_tracker" "det_box ?d"]
    cup_tracker_ok
  obtain kf2 where k: "kf_update (fst (predict (kalman_filter cup_tracker))) (det_box ?d) = Inr kf2"
    and ki: "kf_is_initialized kf2"
    by (auto simp: tracker_ok_def)
  note u = update_matched [OF cup_tracker_tracking cup_tracker_track m k
      get_current_bbox_initialized [OF ki], of "frame_count cup_annotator"]
  have w: "write_annotation (output_dir cup_annotator)
             (write_image (output_dir cup_annotator) empty_disk (Some ''frame_000001'') False)
             (Some ''frame_000001'') True [r0] cup_frame
           = (empty_disk\<lparr> label_files := [''out/labels/frame_000001.txt'' \<mapsto>
                  [convert_to_yolo_format r0 640 480]] \<rparr>, Inr True)" for r0
    by (simp add: write_annotation_def write_image_def given_name_def save_frame_annotation_def
        Let_def empty_disk_def cup_frame_def cup_annotator_def path_join_def
        initialize_from_manual_annotation_def VideoAutoAnnotator_init_def)
  from process_frame_saved [OF cup_annotator_initialized u [folded cup_annotator_tracker] w] p
  obtain res where r: "r = Inr [res]"
    and f: "fs' = empty_disk\<lparr> label_files := [''out/labels/frame_000001.txt'' \<mapsto>
                  [convert_to_yolo_format res 640 480]] \<rparr>"
    and n: "st_saved_annotations (statistics a') = st_saved_annotations (statistics cup_annotator) + 1"
    by auto
  have z: "st_saved_annotations (statistics cup_annotator) = 0"
    by (simp add: cup_annotator_def initialize_from_manual_annotation_def Let_def
        VideoAutoAnnotator_init_def Statistics_init_def)
  from c n z r have "\<exists>res fs1. r = Inr res \<and> res \<noteq> []
              \<and> save_frame_annotation (output_dir cup_annotator) fs1 ''frame_000001'' res
                    (image_width cup_frame) (image_height cup_frame) = (fs', Inr True)"
    by auto
  moreover from f have "dom (label_files fs') = {''out/labels/frame_000001.txt''}" by simp
  ultimately show ?thesis using p c n z by auto
qed

end
